theory Spec2Isabelle
  imports Main "HOL-Library.Word"
begin

section \<open>Python values used by \<open>app.py\<close>\<close>

text \<open>
  A Python \<open>str\<close> is a sequence of Unicode code points, so it is modelled as a list of
  naturals; a value of the Python type holds code points below \<open>0x110000\<close> only
  (\<open>is_str\<close>), lone surrogates included.  A \<open>bytes\<close> object is a list of 8-bit words.
  Literals of the source are written \<open>lit ''...''\<close>.  An \<open>int\<close> is unbounded.
\<close>

type_synonym pystr = "nat list"

type_synonym pybytes = "8 word list"

abbreviation ch :: "char \<Rightarrow> nat" where
  "ch \<equiv> of_char"

definition lit :: "string \<Rightarrow> pystr" where
  "lit s = map ch s"

definition is_str :: "pystr \<Rightarrow> bool" where
  "is_str s = list_all (\<lambda>c. c < 0x110000) s"

definition is_surrogate :: "nat \<Rightarrow> bool" where
  "is_surrogate c = (0xD800 \<le> c \<and> c \<le> 0xDFFF)"

text \<open>\<open>sep.join(xs)\<close>\<close>

fun join :: "pystr \<Rightarrow> pystr list \<Rightarrow> pystr" where
  "join sep [] = []"
| "join sep [x] = x"
| "join sep (x # y # ys) = x @ sep @ join sep (y # ys)"

text \<open>\<open>s.replace(a, b)\<close> for one-character \<open>a\<close> and \<open>b\<close>\<close>

definition replace :: "nat \<Rightarrow> nat \<Rightarrow> pystr \<Rightarrow> pystr" where
  "replace a b s = map (\<lambda>c. if c = a then b else c) s"

text \<open>
  The errors that the two builders can raise: both come from the standard library.
\<close>

datatype error = UnicodeEncodeError pystr nat | ValueError

text \<open>
  \<open>str(n)\<close> for an \<open>int\<close>, which is also what an f-string does with \<open>{n}\<close>: the decimal
  digits, with a minus sign below zero.  CPython refuses the conversion with a
  \<open>ValueError\<close> when the number has more decimal digits (the sign not counted) than
  \<open>sys.get_int_max_str_digits()\<close>, which is 4300 unless the interpreter is configured
  otherwise.
\<close>

fun digits :: "nat \<Rightarrow> pystr" where
  "digits n =
     (if n < 10 then [ch CHR ''0'' + n] else digits (n div 10) @ [ch CHR ''0'' + n mod 10])"

declare digits.simps [simp del]

definition decimal :: "int \<Rightarrow> pystr" where
  "decimal i = (if i < 0 then ch CHR ''-'' # digits (nat (- i)) else digits (nat i))"

definition int_max_str_digits :: nat where
  "int_max_str_digits = 4300"

definition within_limit :: "int \<Rightarrow> bool" where
  "within_limit i = (length (digits (nat \<bar>i\<bar>)) \<le> int_max_str_digits)"

definition str_int :: "int \<Rightarrow> error + pystr" where
  "str_int i = (if within_limit i then Inr (decimal i) else Inl ValueError)"

text \<open>Truthiness of an optional string, as tested by \<open>if ca_cert_path:\<close>\<close>

definition truthy :: "pystr option \<Rightarrow> bool" where
  "truthy p = (case p of None \<Rightarrow> False | Some s \<Rightarrow> s \<noteq> [])"

text \<open>The text of an optional string: empty when there is none.\<close>

definition path_text :: "pystr option \<Rightarrow> pystr" where
  "path_text p = (case p of None \<Rightarrow> [] | Some s \<Rightarrow> s)"

section \<open>\<open>urllib.parse\<close>: quoting\<close>

text \<open>
  \<open>s.encode('utf-8', 'strict')\<close>: a surrogate code point cannot be encoded and raises
  \<open>UnicodeEncodeError\<close>, which carries the string and the position of the first
  offending code point.
\<close>

definition utf8_char :: "nat \<Rightarrow> pybytes" where
  "utf8_char c =
     (if c < 0x80 then [of_nat c]
      else if c < 0x800 then [of_nat (0xC0 + c div 64), of_nat (0x80 + c mod 64)]
      else if c < 0x10000 then
        [of_nat (0xE0 + c div 4096), of_nat (0x80 + c div 64 mod 64), of_nat (0x80 + c mod 64)]
      else
        [of_nat (0xF0 + c div 262144), of_nat (0x80 + c div 4096 mod 64),
         of_nat (0x80 + c div 64 mod 64), of_nat (0x80 + c mod 64)])"

definition encode_utf8 :: "pystr \<Rightarrow> error + pybytes" where
  "encode_utf8 s =
     (if list_ex is_surrogate s
      then Inl (UnicodeEncodeError s (length (takeWhile (\<lambda>c. \<not> is_surrogate c) s)))
      else Inr (concat (map utf8_char s)))"

text \<open>
  \<open>_ALWAYS_SAFE\<close>, the bytes that are never quoted, and the quoter
  \<open>chr(b) if b in safe else '%{:02X}'.format(b)\<close>.
\<close>

definition always_safe :: "pystr" where
  "always_safe =
     lit ''ABCDEFGHIJKLMNOPQRSTUVWXYZ'' @ lit ''abcdefghijklmnopqrstuvwxyz'' @
     lit ''0123456789'' @ lit ''_.-~''"

definition hexdig :: "nat \<Rightarrow> nat" where
  "hexdig d = lit ''0123456789ABCDEF'' ! d"

definition quoter :: "pystr \<Rightarrow> 8 word \<Rightarrow> pystr" where
  "quoter safe b =
     (if unat b \<in> set (always_safe @ safe) then [unat b]
      else [ch CHR ''%'', hexdig (unat b div 16), hexdig (unat b mod 16)])"

definition quote_from_bytes :: "pybytes \<Rightarrow> pystr \<Rightarrow> pystr" where
  "quote_from_bytes bs safe = concat (map (quoter (filter (\<lambda>c. c < 128) safe)) bs)"

text \<open>\<open>quote(string, safe)\<close> on a \<open>str\<close>, with the default encoding and error mode\<close>

definition quote :: "pystr \<Rightarrow> pystr \<Rightarrow> error + pystr" where
  "quote string safe =
     (if string = [] then Inr string
      else case encode_utf8 string of
             Inl e \<Rightarrow> Inl e
           | Inr bs \<Rightarrow> Inr (quote_from_bytes bs safe))"

text \<open>\<open>quote_plus(string)\<close>, whose default \<open>safe\<close> is the empty string\<close>

definition quote_plus :: "pystr \<Rightarrow> error + pystr" where
  "quote_plus string =
     (if ch CHR '' '' \<notin> set string then quote string []
      else case quote string [ch CHR '' ''] of
             Inl e \<Rightarrow> Inl e
           | Inr q \<Rightarrow> Inr (replace (ch CHR '' '') (ch CHR ''+'') q))"

section \<open>\<open>urllib.parse\<close>: unquoting\<close>

text \<open>
  \<open>bs.decode('utf-8', 'replace')\<close>: a well-formed sequence gives its code point; an
  ill-formed one gives \<open>U+FFFD\<close> for its longest prefix that could start a well-formed
  sequence, and decoding goes on behind that prefix.
\<close>

definition is_cont :: "8 word \<Rightarrow> bool" where
  "is_cont b = (0x80 \<le> unat b \<and> unat b \<le> 0xBF)"

definition second_ok :: "8 word \<Rightarrow> 8 word \<Rightarrow> bool" where
  "second_ok lead b =
     (if unat lead = 0xE0 then 0xA0 \<le> unat b \<and> unat b \<le> 0xBF
      else if unat lead = 0xED then 0x80 \<le> unat b \<and> unat b < 0xA0
      else if unat lead = 0xF0 then 0x90 \<le> unat b \<and> unat b \<le> 0xBF
      else if unat lead = 0xF4 then 0x80 \<le> unat b \<and> unat b < 0x90
      else is_cont b)"

definition cont_bits :: "8 word \<Rightarrow> nat" where
  "cont_bits b = unat b - 0x80"

fun decode_utf8 :: "pybytes \<Rightarrow> pystr" where
  "decode_utf8 [] = []"
| "decode_utf8 (b # bs) =
     (if unat b < 0x80 then unat b # decode_utf8 bs
      else if 0xC2 \<le> unat b \<and> unat b \<le> 0xDF then
        (case bs of
           [] \<Rightarrow> [0xFFFD]
         | b1 # r1 \<Rightarrow>
             if is_cont b1 then ((unat b - 0xC0) * 64 + cont_bits b1) # decode_utf8 r1
             else 0xFFFD # decode_utf8 bs)
      else if 0xE0 \<le> unat b \<and> unat b \<le> 0xEF then
        (case bs of
           [] \<Rightarrow> [0xFFFD]
         | b1 # r1 \<Rightarrow>
             if \<not> second_ok b b1 then 0xFFFD # decode_utf8 bs
             else (case r1 of
                     [] \<Rightarrow> [0xFFFD]
                   | b2 # r2 \<Rightarrow>
                       if is_cont b2
                       then ((unat b - 0xE0) * 4096 + cont_bits b1 * 64 + cont_bits b2)
                              # decode_utf8 r2
                       else 0xFFFD # decode_utf8 r1))
      else if 0xF0 \<le> unat b \<and> unat b \<le> 0xF4 then
        (case bs of
           [] \<Rightarrow> [0xFFFD]
         | b1 # r1 \<Rightarrow>
             if \<not> second_ok b b1 then 0xFFFD # decode_utf8 bs
             else (case r1 of
                     [] \<Rightarrow> [0xFFFD]
                   | b2 # r2 \<Rightarrow>
                       if \<not> is_cont b2 then 0xFFFD # decode_utf8 r1
                       else (case r2 of
                               [] \<Rightarrow> [0xFFFD]
                             | b3 # r3 \<Rightarrow>
                                 if is_cont b3
                                 then ((unat b - 0xF0) * 262144 + cont_bits b1 * 4096 +
                                       cont_bits b2 * 64 + cont_bits b3) # decode_utf8 r3
                                 else 0xFFFD # decode_utf8 r2)))
      else 0xFFFD # decode_utf8 bs)"

text \<open>
  \<open>unquote_to_bytes\<close> on ASCII text: \<open>%\<close> followed by two hexadecimal digits (of
  either case) is the byte they name; any other \<open>%\<close> stays as it is.
\<close>

definition hexval :: "nat \<Rightarrow> nat option" where
  "hexval c =
     (if ch CHR ''0'' \<le> c \<and> c \<le> ch CHR ''9'' then Some (c - ch CHR ''0'')
      else if ch CHR ''A'' \<le> c \<and> c \<le> ch CHR ''F'' then Some (c - ch CHR ''A'' + 10)
      else if ch CHR ''a'' \<le> c \<and> c \<le> ch CHR ''f'' then Some (c - ch CHR ''a'' + 10)
      else None)"

definition hextobyte :: "nat \<Rightarrow> nat \<Rightarrow> 8 word option" where
  "hextobyte h l =
     (case (hexval h, hexval l) of
        (Some x, Some y) \<Rightarrow> Some (of_nat (16 * x + y))
      | _ \<Rightarrow> None)"

fun unquote_to_bytes :: "pystr \<Rightarrow> pybytes" where
  "unquote_to_bytes (c # h # l # cs) =
     (if c = ch CHR ''%'' then
        (case hextobyte h l of
           Some b \<Rightarrow> b # unquote_to_bytes cs
         | None \<Rightarrow> of_nat c # unquote_to_bytes (h # l # cs))
      else of_nat c # unquote_to_bytes (h # l # cs))"
| "unquote_to_bytes (c # cs) = of_nat c # unquote_to_bytes cs"
| "unquote_to_bytes [] = []"

text \<open>
  \<open>unquote(string)\<close> on a \<open>str\<close>, with the default encoding and the error mode
  \<open>'replace'\<close>: a string without \<open>%\<close> is returned as it is; otherwise every maximal run
  of ASCII characters is unquoted to bytes and decoded, and the other characters are kept.
\<close>

definition is_ascii :: "nat \<Rightarrow> bool" where
  "is_ascii c = (c < 128)"

function unquote_parts :: "pystr \<Rightarrow> pystr" where
  "unquote_parts [] = []"
| "unquote_parts (c # cs) =
     (if is_ascii c
      then decode_utf8 (unquote_to_bytes (c # takeWhile is_ascii cs))
             @ unquote_parts (dropWhile is_ascii cs)
      else c # unquote_parts cs)"
  by pat_completeness auto
termination
  by (relation "measure length") (auto simp: length_dropWhile_le less_Suc_eq_le)

definition unquote :: "pystr \<Rightarrow> pystr" where
  "unquote string = (if ch CHR ''%'' \<notin> set string then string else unquote_parts string)"

definition unquote_plus :: "pystr \<Rightarrow> pystr" where
  "unquote_plus string = unquote (replace (ch CHR ''+'') (ch CHR '' '') string)"

text \<open>
  Reading a URL's query string: the text behind the first \<open>?\<close>, cut at every \<open>&\<close>, each
  piece cut at its first \<open>=\<close> into a name and a raw (still quoted) value.
\<close>

fun split_on :: "nat \<Rightarrow> pystr \<Rightarrow> pystr list" where
  "split_on sep [] = [[]]"
| "split_on sep (c # cs) =
     (if c = sep then [] # split_on sep cs
      else (case split_on sep cs of
              [] \<Rightarrow> [[c]]
            | p # ps \<Rightarrow> (c # p) # ps))"

definition query_string :: "pystr \<Rightarrow> pystr option" where
  "query_string u =
     (case dropWhile (\<lambda>c. c \<noteq> ch CHR ''?'') u of [] \<Rightarrow> None | _ # q \<Rightarrow> Some q)"

definition name_value :: "pystr \<Rightarrow> pystr \<times> pystr" where
  "name_value p =
     (takeWhile (\<lambda>c. c \<noteq> ch CHR ''='') p, drop 1 (dropWhile (\<lambda>c. c \<noteq> ch CHR ''='') p))"

definition query_params :: "pystr \<Rightarrow> (pystr \<times> pystr) list" where
  "query_params u =
     (case query_string u of
        None \<Rightarrow> []
      | Some q \<Rightarrow> map name_value (split_on (ch CHR ''&'') q))"

section \<open>The two builders of \<open>app.py\<close>\<close>

text \<open>
  Both builders end in \<open>create_engine(url, pool_size=5, max_overflow=10, future=True)\<close>,
  a call into SQLAlchemy.  The model stops at that call: what a builder returns is the
  record of the arguments it passes, the descriptor \<open>url\<close> among them.
\<close>

record engine_request =
  url :: pystr
  pool_size :: int
  max_overflow :: int
  future :: bool

definition create_engine :: "pystr \<Rightarrow> engine_request" where
  "create_engine u = \<lparr>url = u, pool_size = 5, max_overflow = 10, future = True\<rparr>"

subsection \<open>Method A: \<open>create_engine_with_dsn\<close>\<close>

text \<open>
  The list \<open>dsn_attrs\<close> after the optional \<open>append\<close>, and the joined \<open>dsn\<close>.  The list
  display evaluates its elements from first to last, so \<open>str(port)\<close> comes before
  \<open>str(connect_timeout)\<close>, and an error of either leaves no list.
\<close>

definition dsn_attrs ::
  "pystr \<Rightarrow> pystr \<Rightarrow> pystr \<Rightarrow> int \<Rightarrow> pystr \<Rightarrow> pystr option \<Rightarrow> int
     \<Rightarrow> error + pystr list" where
  "dsn_attrs user password host port database ca_cert_path connect_timeout =
     (case str_int port of
        Inl e \<Rightarrow> Inl e
      | Inr port_text \<Rightarrow>
     (case str_int connect_timeout of
        Inl e \<Rightarrow> Inl e
      | Inr timeout_text \<Rightarrow>
          Inr ([lit ''DATABASE='' @ database,
                lit ''HOSTNAME='' @ host,
                lit ''PORT='' @ port_text,
                lit ''PROTOCOL=TCPIP'',
                lit ''UID='' @ user,
                lit ''PWD='' @ password,
                lit ''Security=SSL'',
                lit ''CONNECTTIMEOUT='' @ timeout_text]
               @ (if truthy ca_cert_path
                  then [lit ''SSLServerCertificate='' @ the ca_cert_path] else []))))"

definition dsn ::
  "pystr \<Rightarrow> pystr \<Rightarrow> pystr \<Rightarrow> int \<Rightarrow> pystr \<Rightarrow> pystr option \<Rightarrow> int \<Rightarrow> error + pystr" where
  "dsn user password host port database ca_cert_path connect_timeout =
     (case dsn_attrs user password host port database ca_cert_path connect_timeout of
        Inl e \<Rightarrow> Inl e
      | Inr attrs \<Rightarrow> Inr (join (lit '';'') attrs))"

definition create_engine_with_dsn ::
  "pystr \<Rightarrow> pystr \<Rightarrow> pystr \<Rightarrow> int \<Rightarrow> pystr \<Rightarrow> pystr option \<Rightarrow> int
     \<Rightarrow> error + engine_request" where
  "create_engine_with_dsn user password host port database ca_cert_path connect_timeout =
     (case dsn user password host port database ca_cert_path connect_timeout of
        Inl e \<Rightarrow> Inl e
      | Inr d \<Rightarrow>
     (case quote_plus d of
        Inl e \<Rightarrow> Inl e
      | Inr encoded_dsn \<Rightarrow> Inr (create_engine (lit ''ibm_db_sa:///?dsn='' @ encoded_dsn))))"

subsection \<open>Method B: \<open>create_engine_with_url_params\<close>\<close>

text \<open>
  The f-string of \<open>base\<close> evaluates \<open>quote_plus(user)\<close>, \<open>quote_plus(password)\<close> and
  \<open>{port}\<close> in this order.  The dictionary \<open>params\<close> keeps insertion order and its keys
  are distinct, so it is a list of pairs; building it calls \<open>str(connect_timeout)\<close>.
  \<open>quote_values\<close> is the generator of line 102, which quotes the values from left to
  right and stops at the first one that raises.
\<close>

definition params :: "pystr option \<Rightarrow> int \<Rightarrow> error + (pystr \<times> pystr) list" where
  "params ca_cert_path connect_timeout =
     (case str_int connect_timeout of
        Inl e \<Rightarrow> Inl e
      | Inr timeout_text \<Rightarrow>
          Inr ([(lit ''security'', lit ''SSL''), (lit ''connecttimeout'', timeout_text)]
               @ (if truthy ca_cert_path
                  then [(lit ''SSLServerCertificate'', the ca_cert_path)] else [])))"

fun quote_values :: "(pystr \<times> pystr) list \<Rightarrow> error + pystr list" where
  "quote_values [] = Inr []"
| "quote_values ((k, v) # kvs) =
     (case quote_plus v of
        Inl e \<Rightarrow> Inl e
      | Inr q \<Rightarrow>
          (case quote_values kvs of
             Inl e \<Rightarrow> Inl e
           | Inr qs \<Rightarrow> Inr ((k @ lit ''='' @ q) # qs)))"

definition create_engine_with_url_params ::
  "pystr \<Rightarrow> pystr \<Rightarrow> pystr \<Rightarrow> int \<Rightarrow> pystr \<Rightarrow> pystr option \<Rightarrow> int
     \<Rightarrow> error + engine_request" where
  "create_engine_with_url_params user password host port database ca_cert_path connect_timeout =
     (case quote_plus user of
        Inl e \<Rightarrow> Inl e
      | Inr quser \<Rightarrow>
     (case quote_plus password of
        Inl e \<Rightarrow> Inl e
      | Inr qpassword \<Rightarrow>
     (case str_int port of
        Inl e \<Rightarrow> Inl e
      | Inr port_text \<Rightarrow>
     (let base = lit ''ibm_db_sa://'' @ quser @ lit '':'' @ qpassword @ lit ''@'' @ host
                 @ lit '':'' @ port_text @ lit ''/'' @ database
      in case params ca_cert_path connect_timeout of
           Inl e \<Rightarrow> Inl e
         | Inr ps \<Rightarrow>
     (case quote_values ps of
        Inl e \<Rightarrow> Inl e
      | Inr parts \<Rightarrow>
          (let qs = join (lit ''&'') parts
           in Inr (create_engine (base @ (if qs \<noteq> [] then lit ''?'' @ qs else [])))))))))"

text \<open>
  Reading the attributes of a DSN descriptor, as the driver receives them: the value of
  the URL's \<open>dsn\<close> parameter, unquoted, cut at every \<open>;\<close>, each piece cut at its first
  \<open>=\<close> into a name and a value.
\<close>

definition dsn_attributes :: "pystr \<Rightarrow> (pystr \<times> pystr) list" where
  "dsn_attributes u =
     (case map_of (query_params u) (lit ''dsn'') of
        None \<Rightarrow> []
      | Some v \<Rightarrow> map name_value (split_on (ch CHR '';'') (unquote_plus v)))"

section \<open>\<open>test_connection\<close>\<close>

text \<open>
  An exception is its class, given by the names of the classes it is an instance of, and
  the text \<open>str(e)\<close>.  The engine is given by what its operations do when they are
  called: \<open>engine.connect()\<close> returns a connection or raises; \<open>conn.execute(statement)\<close>
  returns a result or raises; \<open>result.scalar()\<close> returns a value or raises; and leaving
  the \<open>with\<close> block releases the connection, which may raise as well (SQLAlchemy's
  \<open>Connection.__enter__\<close> returns the connection itself, and its \<open>__exit__\<close> closes the
  connection and suppresses no exception).  The statement \<open>text("...")\<close> is modelled by
  its SQL string.  Standard output is the list of the lines printed so far.  The value
  that \<open>scalar\<close> returns is \<open>None\<close>, an \<open>int\<close> or a string, and \<open>py_str\<close> is the text
  that \<open>print\<close> writes for it; the digit limit of \<open>str\<close> is left out here, the values of
  a one-column query being far below it.
\<close>

record pyexc =
  exc_classes :: "string list"
  exc_str :: pystr

datatype pyval = PyNone | PyInt int | PyStr pystr

fun py_str :: "pyval \<Rightarrow> pystr" where
  "py_str PyNone = lit ''None''"
| "py_str (PyInt i) = decimal i"
| "py_str (PyStr s) = s"

record result =
  scalar :: "pyexc + pyval"

record connection =
  execute :: "pystr \<Rightarrow> pyexc + result"
  release :: "pyexc option"

record engine =
  connect :: "pyexc + connection"

definition isinstance :: "pyexc \<Rightarrow> string \<Rightarrow> bool" where
  "isinstance e cls = (cls \<in> set (exc_classes e))"

text \<open>The \<open>try\<close> statement's only handler, \<open>except SQLAlchemyError as e\<close>.\<close>

definition except_clause :: "pyexc \<Rightarrow> pystr list \<Rightarrow> pystr list \<times> (pyexc + bool)" where
  "except_clause e out =
     (if isinstance e ''SQLAlchemyError''
      then (out @ [lit ''Connection test failed: '' @ exc_str e], Inr False)
      else (out, Inl e))"

text \<open>
  Leaving the \<open>with\<close> block releases the connection.  An exception raised by the release
  takes the place of the one raised in the body; without any exception the function goes
  on to \<open>return True\<close>.
\<close>

definition leave_with ::
  "connection \<Rightarrow> pyexc option \<Rightarrow> pystr list \<Rightarrow> pystr list \<times> (pyexc + bool)" where
  "leave_with conn raised out =
     (case release conn of
        Some e \<Rightarrow> except_clause e out
      | None \<Rightarrow> (case raised of Some e \<Rightarrow> except_clause e out | None \<Rightarrow> (out, Inr True)))"

definition test_connection :: "engine \<Rightarrow> pystr list \<Rightarrow> pystr list \<times> (pyexc + bool)" where
  "test_connection eng out =
     (case connect eng of
        Inl e \<Rightarrow> except_clause e out
      | Inr conn \<Rightarrow>
          (case execute conn (lit ''SELECT 1 FROM SYSIBM.SYSDUMMY1'') of
             Inl e \<Rightarrow> leave_with conn (Some e) out
           | Inr res \<Rightarrow>
               (case scalar res of
                  Inl e \<Rightarrow> leave_with conn (Some e) out
                | Inr val \<Rightarrow>
                    leave_with conn None
                      (out @ [lit ''Connection test returned: '' @ py_str val]))))"

text \<open>
  Engines for the examples: a stub whose \<open>connect\<close> succeeds, with a chosen outcome of
  \<open>execute\<close> and of the release; the result whose \<open>scalar\<close> is 1; an error outside
  SQLAlchemy's hierarchy and one inside it.
\<close>

definition runtime_error :: pyexc where
  "runtime_error =
     \<lparr>exc_classes = [''RuntimeError'', ''Exception'', ''BaseException'', ''object''],
      exc_str = lit ''boom''\<rparr>"

definition operational_error :: pyexc where
  "operational_error =
     \<lparr>exc_classes = [''OperationalError'', ''DatabaseError'', ''DBAPIError'', ''StatementError'',
                      ''SQLAlchemyError'', ''Exception'', ''BaseException'', ''object''],
      exc_str = lit ''connection refused''\<rparr>"


definition stub_engine :: "pyexc + result \<Rightarrow> pyexc option \<Rightarrow> engine" where
  "stub_engine on_execute on_release =
     \<lparr>connect = Inr \<lparr>execute = (\<lambda>statement. on_execute), release = on_release\<rparr>\<rparr>"

section \<open>Facts about quoting\<close>

lemma always_safe_upt: "always_safe = [65..<91] @ [97..<123] @ [48..<58] @ [95, 46, 45, 126]"
  by (simp add: always_safe_def lit_def upt_rec)

lemma always_safe_iff:
  "c \<in> set always_safe \<longleftrightarrow>
     (65 \<le> c \<and> c \<le> 90) \<or> (97 \<le> c \<and> c \<le> 122) \<or> (48 \<le> c \<and> c \<le> 57) \<or>
     c = 95 \<or> c = 46 \<or> c = 45 \<or> c = 126"
proof -
  have "set always_safe = {65..<91} \<union> {97..<123} \<union> {48..<58} \<union> {95, 46, 45, 126}"
    unfolding always_safe_upt set_append set_upt by (simp add: Un_assoc)
  then show ?thesis by auto
qed

lemma unat_byte: "n < 256 \<Longrightarrow> unat (of_nat n :: 8 word) = n"
  by (simp add: unat_of_nat)

lemma byte_lt: "unat (b :: 8 word) < 256"
  using unsigned_less [of b, where ?'a = nat] by simp

lemma hexdig_cases:
  assumes "d < 16"
  shows "hexdig d \<in> set always_safe \<and> hexval (hexdig d) = Some d"
proof -
  have "d = 0 \<or> d = 1 \<or> d = 2 \<or> d = 3 \<or> d = 4 \<or> d = 5 \<or> d = 6 \<or> d = 7 \<or> d = 8 \<or> d = 9
    \<or> d = 10 \<or> d = 11 \<or> d = 12 \<or> d = 13 \<or> d = 14 \<or> d = 15"
    using assms by arith
  then show ?thesis
    by (elim disjE) (simp_all add: hexdig_def lit_def hexval_def always_safe_iff)
qed

lemma hextobyte_hexdig:
  "hextobyte (hexdig (unat b div 16)) (hexdig (unat b mod 16)) = Some (b :: 8 word)"
proof -
  have "unat b div 16 < 16" using byte_lt [of b] by simp
  moreover have "unat b mod 16 < 16" by simp
  ultimately show ?thesis
    by (simp add: hextobyte_def hexdig_cases)
qed

lemma quoter_alphabet: "set (quoter safe b) \<subseteq> set always_safe \<union> set safe \<union> {37}"
proof -
  have "unat b div 16 < 16" using byte_lt [of b] by simp
  moreover have "unat b mod 16 < 16" by simp
  ultimately show ?thesis
    by (auto simp: quoter_def hexdig_cases)
qed

lemma quote_from_bytes_alphabet:
  "set (quote_from_bytes bs safe) \<subseteq> set always_safe \<union> set safe \<union> {37}"
  using quoter_alphabet by (fastforce simp: quote_from_bytes_def)

lemma quote_alphabet:
  "quote s safe = Inr t \<Longrightarrow> set t \<subseteq> set always_safe \<union> set safe \<union> {37}"
  using quote_from_bytes_alphabet [of _ safe]
  by (auto simp: quote_def split: if_splits sum.splits)

lemma quote_plus_alphabet:
  assumes "quote_plus s = Inr t"
  shows "set t \<subseteq> set always_safe \<union> {37, 43}"
proof (cases "32 \<in> set s")
  case False
  with assms have "quote s [] = Inr t" by (simp add: quote_plus_def)
  from quote_alphabet [OF this] show ?thesis by auto
next
  case True
  with assms obtain q where q: "quote s [32] = Inr q" and t: "t = replace 32 43 q"
    by (auto simp: quote_plus_def split: sum.splits)
  from quote_alphabet [OF q] show ?thesis
    unfolding t replace_def by auto
qed

lemma quote_Inr:
  "\<not> list_ex is_surrogate s \<Longrightarrow>
     quote s safe = Inr (quote_from_bytes (concat (map utf8_char s)) safe)"
  by (cases s) (simp_all add: quote_def encode_utf8_def quote_from_bytes_def)

lemma quote_Inl:
  "list_ex is_surrogate s \<Longrightarrow>
     quote s safe = Inl (UnicodeEncodeError s (length (takeWhile (\<lambda>c. \<not> is_surrogate c) s)))"
  by (cases s) (simp_all add: quote_def encode_utf8_def)

lemma quote_plus_Inl:
  "list_ex is_surrogate s \<Longrightarrow>
     quote_plus s = Inl (UnicodeEncodeError s (length (takeWhile (\<lambda>c. \<not> is_surrogate c) s)))"
  by (simp add: quote_plus_def quote_Inl)

lemma quote_plus_Inr:
  "\<not> list_ex is_surrogate s \<Longrightarrow> \<exists>t. quote_plus s = Inr t"
  by (simp add: quote_plus_def quote_Inr)

section \<open>Facts about unquoting\<close>

lemma unquote_to_bytes_plain:
  "c \<noteq> 37 \<Longrightarrow> unquote_to_bytes (c # cs) = of_nat c # unquote_to_bytes cs"
proof (cases cs)
  case Nil
  then show ?thesis by simp
next
  case (Cons h t)
  assume "c \<noteq> 37"
  then show ?thesis unfolding Cons by (cases t) simp_all
qed

lemma unquote_to_bytes_quoter:
  assumes "37 \<notin> set safe"
  shows "unquote_to_bytes (quoter safe b @ cs) = b # unquote_to_bytes cs"
proof (cases "unat b \<in> set (always_safe @ safe)")
  case True
  then have "unat b \<noteq> 37" using assms by (auto simp: always_safe_iff)
  with True show ?thesis by (simp add: quoter_def unquote_to_bytes_plain)
next
  case False
  then show ?thesis by (simp add: quoter_def hextobyte_hexdig)
qed

lemma unquote_to_bytes_quote_from_bytes:
  "37 \<notin> set safe \<Longrightarrow> unquote_to_bytes (quote_from_bytes bs safe) = bs"
  unfolding quote_from_bytes_def
  by (induction bs) (simp_all add: unquote_to_bytes_quoter)

lemma unat_byte_add:
  "numeral k + n < 256 \<Longrightarrow> unat (numeral k + of_nat n :: 8 word) = numeral k + n"
  using unat_byte [of "numeral k + n"] by simp

lemma decode_utf8_2:
  "0xC2 \<le> unat b \<Longrightarrow> unat b \<le> 0xDF \<Longrightarrow> is_cont b1 \<Longrightarrow>
   decode_utf8 (b # b1 # bs) = ((unat b - 0xC0) * 64 + cont_bits b1) # decode_utf8 bs"
  by simp

lemma decode_utf8_3:
  "0xE0 \<le> unat b \<Longrightarrow> unat b \<le> 0xEF \<Longrightarrow> second_ok b b1 \<Longrightarrow> is_cont b2 \<Longrightarrow>
   decode_utf8 (b # b1 # b2 # bs) =
     ((unat b - 0xE0) * 4096 + cont_bits b1 * 64 + cont_bits b2) # decode_utf8 bs"
  by simp

lemma decode_utf8_4:
  "0xF0 \<le> unat b \<Longrightarrow> unat b \<le> 0xF4 \<Longrightarrow> second_ok b b1 \<Longrightarrow> is_cont b2 \<Longrightarrow> is_cont b3 \<Longrightarrow>
   decode_utf8 (b # b1 # b2 # b3 # bs) =
     ((unat b - 0xF0) * 262144 + cont_bits b1 * 4096 + cont_bits b2 * 64 + cont_bits b3)
       # decode_utf8 bs"
  by simp

lemma cont_byte:
  "n < 64 \<Longrightarrow> is_cont (of_nat (0x80 + n)) \<and> cont_bits (of_nat (0x80 + n)) = n"
  by (simp add: is_cont_def cont_bits_def unat_byte_add)


lemma utf8_roundtrip_2:
  assumes "0x80 \<le> c" "c < 0x800"
  shows "decode_utf8 (utf8_char c @ bs) = c # decode_utf8 bs"
proof -
  define hi lo where "hi = c div 64" and "lo = c mod 64"
  have r: "2 \<le> hi" "hi < 32" "lo < 64" and c: "hi * 64 + lo = c"
    using assms by (simp_all add: hi_def lo_def)
  have u: "utf8_char c = [of_nat (0xC0 + hi), of_nat (0x80 + lo)]"
    using assms by (simp add: utf8_char_def hi_def lo_def)
  have b: "unat (of_nat (0xC0 + hi) :: 8 word) = 0xC0 + hi"
    by (rule unat_byte) (use r in simp)
  have "decode_utf8 (of_nat (0xC0 + hi) # of_nat (0x80 + lo) # bs) =
          ((unat (of_nat (0xC0 + hi) :: 8 word) - 0xC0) * 64 + cont_bits (of_nat (0x80 + lo)))
            # decode_utf8 bs"
    by (rule decode_utf8_2) (use r b cont_byte [of lo] in simp_all)
  then show ?thesis
    unfolding u b using cont_byte [of lo] r c by simp
qed


lemma second_ok_3:
  assumes "hi < 16" "mid < 64" "hi = 0 \<Longrightarrow> 32 \<le> mid" "hi = 13 \<Longrightarrow> mid < 32"
  shows "second_ok (of_nat (0xE0 + hi)) (of_nat (0x80 + mid))"
proof -
  have b: "unat (of_nat (0xE0 + hi) :: 8 word) = 0xE0 + hi"
    by (rule unat_byte) (use assms in simp)
  have m: "unat (of_nat (0x80 + mid) :: 8 word) = 0x80 + mid"
    by (rule unat_byte) (use assms in simp)
  show ?thesis
    unfolding second_ok_def is_cont_def b m using assms by auto
qed

lemma split_3:
  fixes c :: nat
  shows "c div 4096 * 4096 + c div 64 mod 64 * 64 + c mod 64 = c"
proof -
  have a: "c div 4096 = c div 64 div 64" by (simp add: div_mult2_eq [symmetric])
  have b: "c div 64 = c div 64 div 64 * 64 + c div 64 mod 64" by simp
  have d: "c = c div 64 * 64 + c mod 64" by simp
  show ?thesis unfolding a using b d by linarith
qed

lemma split_4:
  fixes c :: nat
  shows "c div 262144 * 262144 + c div 4096 mod 64 * 4096 + c div 64 mod 64 * 64 + c mod 64 = c"
proof -
  have a: "c div 262144 = c div 4096 div 64" by (simp add: div_mult2_eq [symmetric])
  have b: "c div 4096 = c div 4096 div 64 * 64 + c div 4096 mod 64" by simp
  show ?thesis unfolding a using b split_3 [of c] by linarith
qed

lemma utf8_roundtrip_3:
  assumes "0x800 \<le> c" "c < 0x10000" "\<not> is_surrogate c"
  shows "decode_utf8 (utf8_char c @ bs) = c # decode_utf8 bs"
proof -
  define hi mid lo where "hi = c div 4096" and "mid = c div 64 mod 64" and "lo = c mod 64"
  have c: "hi * 4096 + mid * 64 + lo = c"
    unfolding hi_def mid_def lo_def by (rule split_3)
  have r: "hi < 16" "mid < 64" "lo < 64"
    using assms by (simp_all add: hi_def mid_def lo_def)
  have e0: "hi = 0 \<Longrightarrow> 32 \<le> mid" using c r assms(1) by linarith
  have ed: "hi = 13 \<Longrightarrow> mid < 32" using c r assms(3) unfolding is_surrogate_def by linarith
  have u: "utf8_char c = [of_nat (0xE0 + hi), of_nat (0x80 + mid), of_nat (0x80 + lo)]"
    using assms by (simp add: utf8_char_def hi_def mid_def lo_def)
  have b: "unat (of_nat (0xE0 + hi) :: 8 word) = 0xE0 + hi"
    by (rule unat_byte) (use r in simp)
  have "decode_utf8 (of_nat (0xE0 + hi) # of_nat (0x80 + mid) # of_nat (0x80 + lo) # bs) =
          ((unat (of_nat (0xE0 + hi) :: 8 word) - 0xE0) * 4096
            + cont_bits (of_nat (0x80 + mid)) * 64 + cont_bits (of_nat (0x80 + lo)))
            # decode_utf8 bs"
  proof (rule decode_utf8_3)
    show "0xE0 \<le> unat (of_nat (0xE0 + hi) :: 8 word)" unfolding b by simp
    show "unat (of_nat (0xE0 + hi) :: 8 word) \<le> 0xEF" unfolding b using r by simp
    show "second_ok (of_nat (0xE0 + hi)) (of_nat (0x80 + mid))"
      by (rule second_ok_3) (use r e0 ed in auto)
    show "is_cont (of_nat (0x80 + lo))" using cont_byte [of lo] r by blast
  qed
  then show ?thesis
    unfolding u b using cont_byte [of lo] cont_byte [of mid] r c by simp
qed


lemma second_ok_4:
  assumes "hi < 5" "mid < 64" "hi = 0 \<Longrightarrow> 16 \<le> mid" "hi = 4 \<Longrightarrow> mid < 16"
  shows "second_ok (of_nat (0xF0 + hi)) (of_nat (0x80 + mid))"
proof -
  have b: "unat (of_nat (0xF0 + hi) :: 8 word) = 0xF0 + hi"
    by (rule unat_byte) (use assms in simp)
  have m: "unat (of_nat (0x80 + mid) :: 8 word) = 0x80 + mid"
    by (rule unat_byte) (use assms in simp)
  show ?thesis
    unfolding second_ok_def is_cont_def b m using assms by auto
qed

lemma utf8_roundtrip_4:
  assumes "0x10000 \<le> c" "c < 0x110000"
  shows "decode_utf8 (utf8_char c @ bs) = c # decode_utf8 bs"
proof -
  define hi m1 m2 lo where "hi = c div 262144" and "m1 = c div 4096 mod 64"
    and "m2 = c div 64 mod 64" and "lo = c mod 64"
  have c: "hi * 262144 + m1 * 4096 + m2 * 64 + lo = c"
    unfolding hi_def m1_def m2_def lo_def by (rule split_4)
  have r: "hi < 5" "m1 < 64" "m2 < 64" "lo < 64"
    using assms by (simp_all add: hi_def m1_def m2_def lo_def)
  have f0: "hi = 0 \<Longrightarrow> 16 \<le> m1" using c r assms(1) by linarith
  have f4: "hi = 4 \<Longrightarrow> m1 < 16" using c r assms(2) by linarith
  have u: "utf8_char c =
      [of_nat (0xF0 + hi), of_nat (0x80 + m1), of_nat (0x80 + m2), of_nat (0x80 + lo)]"
    using assms by (simp add: utf8_char_def hi_def m1_def m2_def lo_def)
  have b: "unat (of_nat (0xF0 + hi) :: 8 word) = 0xF0 + hi"
    by (rule unat_byte) (use r in simp)
  have "decode_utf8 (of_nat (0xF0 + hi) # of_nat (0x80 + m1) # of_nat (0x80 + m2)
            # of_nat (0x80 + lo) # bs) =
          ((unat (of_nat (0xF0 + hi) :: 8 word) - 0xF0) * 262144
            + cont_bits (of_nat (0x80 + m1)) * 4096 + cont_bits (of_nat (0x80 + m2)) * 64
            + cont_bits (of_nat (0x80 + lo)))
            # decode_utf8 bs"
  proof (rule decode_utf8_4)
    show "0xF0 \<le> unat (of_nat (0xF0 + hi) :: 8 word)" unfolding b by simp
    show "unat (of_nat (0xF0 + hi) :: 8 word) \<le> 0xF4" unfolding b using r by simp
    show "second_ok (of_nat (0xF0 + hi)) (of_nat (0x80 + m1))"
      by (rule second_ok_4) (use r f0 f4 in auto)
    show "is_cont (of_nat (0x80 + m2))" using cont_byte [of m2] r by blast
    show "is_cont (of_nat (0x80 + lo))" using cont_byte [of lo] r by blast
  qed
  then show ?thesis
    unfolding u b using cont_byte [of lo] cont_byte [of m1] cont_byte [of m2] r c by simp
qed

lemma decode_utf8_char:
  assumes "c < 0x110000" and "\<not> is_surrogate c"
  shows "decode_utf8 (utf8_char c @ bs) = c # decode_utf8 bs"
proof -
  consider "c < 0x80" | "0x80 \<le> c" "c < 0x800" | "0x800 \<le> c" "c < 0x10000" | "0x10000 \<le> c"
    by linarith
  then show ?thesis
  proof cases
    case 1
    then show ?thesis by (simp add: utf8_char_def unat_byte)
  next
    case 2
    then show ?thesis by (rule utf8_roundtrip_2)
  next
    case 3
    then show ?thesis using assms(2) by (rule utf8_roundtrip_3)
  next
    case 4
    then show ?thesis using assms(1) by (rule utf8_roundtrip_4)
  qed
qed

lemma decode_encode_utf8:
  "is_str s \<Longrightarrow> \<not> list_ex is_surrogate s \<Longrightarrow> decode_utf8 (concat (map utf8_char s)) = s"
  by (induction s) (simp_all add: is_str_def decode_utf8_char)

lemma unquote_to_bytes_no_percent:
  "37 \<notin> set x \<Longrightarrow> unquote_to_bytes x = map of_nat x"
  by (induction x) (simp_all add: unquote_to_bytes_plain)

lemma decode_utf8_ascii:
  "list_all is_ascii x \<Longrightarrow> decode_utf8 (map of_nat x) = x"
  by (induction x) (simp_all add: is_ascii_def unat_byte)

lemma unquote_parts_ascii:
  "list_all is_ascii x \<Longrightarrow> unquote_parts x = decode_utf8 (unquote_to_bytes x)"
proof (cases x)
  case Nil
  then show ?thesis by simp
next
  case (Cons c cs)
  assume "list_all is_ascii x"
  then have c: "is_ascii c" and cs: "\<forall>y\<in>set cs. is_ascii y"
    unfolding Cons by (simp_all add: list_all_iff)
  from cs have tw: "takeWhile is_ascii cs = cs" and dw: "dropWhile is_ascii cs = []"
    by simp_all
  show ?thesis unfolding Cons unquote_parts.simps tw dw using c by simp
qed

lemma unquote_ascii:
  "list_all is_ascii x \<Longrightarrow> unquote x = decode_utf8 (unquote_to_bytes x)"
  by (simp add: unquote_def unquote_parts_ascii unquote_to_bytes_no_percent decode_utf8_ascii)

lemma quote_from_bytes_ascii:
  assumes "list_all is_ascii safe"
  shows "list_all is_ascii (quote_from_bytes bs safe)"
proof -
  have sub: "set (quote_from_bytes bs safe) \<subseteq> set always_safe \<union> set safe \<union> {37}"
    by (rule quote_from_bytes_alphabet)
  have "is_ascii x" if "x \<in> set (quote_from_bytes bs safe)" for x
  proof -
    from that sub have "x \<in> set always_safe \<or> x \<in> set safe \<or> x = 37" by blast
    then show ?thesis
      using assms by (auto simp: list_all_iff is_ascii_def always_safe_iff)
  qed
  then show ?thesis by (simp add: list_all_iff)
qed

lemma replace_inverse:
  "b \<notin> set s \<Longrightarrow> replace b a (replace a b s) = s"
  by (induction s) (auto simp: replace_def)

lemma replace_absent: "a \<notin> set s \<Longrightarrow> replace a b s = s"
  by (induction s) (auto simp: replace_def)

lemma unquote_plus_quote_plus:
  assumes "is_str s" and "quote_plus s = Inr t"
  shows "unquote_plus t = s"
proof -
  have ns: "\<not> list_ex is_surrogate s"
    using assms(2) quote_plus_Inl [of s] by auto
  define bs where "bs = concat (map utf8_char s)"
  have dec: "decode_utf8 bs = s"
    unfolding bs_def using assms(1) ns by (rule decode_encode_utf8)
  show ?thesis
  proof (cases "32 \<in> set s")
    case False
    then have t: "t = quote_from_bytes bs []"
      using assms(2) ns by (simp add: quote_plus_def quote_Inr bs_def)
    have "set t \<subseteq> set always_safe \<union> set [] \<union> {37}"
      unfolding t by (rule quote_from_bytes_alphabet)
    then have "43 \<notin> set t" by (auto simp: always_safe_iff)
    then have "unquote_plus t = unquote t"
      by (simp add: unquote_plus_def replace_absent)
    also have "\<dots> = decode_utf8 (unquote_to_bytes t)"
      unfolding t by (rule unquote_ascii) (simp add: quote_from_bytes_ascii)
    also have "\<dots> = s"
      unfolding t by (simp add: unquote_to_bytes_quote_from_bytes dec)
    finally show ?thesis .
  next
    case True
    define q where "q = quote_from_bytes bs [32]"
    have t: "t = replace 32 43 q"
      using True assms(2) ns by (simp add: quote_plus_def quote_Inr bs_def q_def)
    have "set q \<subseteq> set always_safe \<union> set [32] \<union> {37}"
      unfolding q_def by (rule quote_from_bytes_alphabet)
    then have "43 \<notin> set q" by (auto simp: always_safe_iff)
    then have "unquote_plus t = unquote q"
      by (simp add: unquote_plus_def t replace_inverse)
    also have "\<dots> = decode_utf8 (unquote_to_bytes q)"
      unfolding q_def by (rule unquote_ascii) (simp add: quote_from_bytes_ascii is_ascii_def)
    also have "\<dots> = s"
      unfolding q_def by (simp add: unquote_to_bytes_quote_from_bytes dec)
    finally show ?thesis .
  qed
qed

lemma split_on_absent: "sep \<notin> set x \<Longrightarrow> split_on sep x = [x]"
  by (induction x) auto

lemma query_params_dsn:
  assumes "38 \<notin> set t" 
  shows "query_params (lit ''ibm_db_sa:///?dsn='' @ t) = [(lit ''dsn'', t)]"
  using assms
  by (simp add: query_params_def query_string_def lit_def split_on_absent name_value_def)

section \<open>Strings that quoting leaves as they are\<close>

lemma lit_no_surrogate: "\<not> list_ex is_surrogate (lit s)"
proof -
  have "\<not> is_surrogate (ch c)" for c
    unfolding is_surrogate_def using nat_of_char_less_256 [of c] by linarith
  then show ?thesis by (simp add: lit_def list_ex_iff)
qed

lemma lit_is_str: "is_str (lit s)"
proof -
  have "ch c < 0x110000" for c
    using nat_of_char_less_256 [of c] by linarith
  then show ?thesis by (simp add: lit_def is_str_def list_all_iff)
qed

lemma digits_safe: "set (digits n) \<subseteq> set always_safe"
proof (induction n rule: digits.induct)
  case (1 n)
  show ?case
  proof (cases "n < 10")
    case True
    then show ?thesis by (subst digits.simps) (simp add: always_safe_iff)
  next
    case False
    have "n mod 10 < 10" by simp
    then have "48 + n mod 10 \<in> set always_safe"
      unfolding always_safe_iff by linarith
    then show ?thesis
      using False 1 by (subst digits.simps) simp
  qed
qed

lemma decimal_safe: "set (decimal i) \<subseteq> set always_safe"
  using digits_safe by (auto simp: decimal_def always_safe_iff)

lemma always_safe_ascii: "c \<in> set always_safe \<Longrightarrow> c < 128"
  by (auto simp: always_safe_iff)

lemma safe_no_surrogate:
  assumes "set s \<subseteq> set always_safe"
  shows "\<not> list_ex is_surrogate s"
proof -
  have "\<not> is_surrogate c" if "c \<in> set s" for c
  proof -
    from that assms have "c \<in> set always_safe" by blast
    from always_safe_ascii [OF this] show ?thesis by (simp add: is_surrogate_def)
  qed
  then show ?thesis by (simp add: list_ex_iff)
qed

lemma safe_is_str:
  assumes "set s \<subseteq> set always_safe"
  shows "is_str s"
proof -
  have "c < 0x110000" if "c \<in> set s" for c
  proof -
    from that assms have "c \<in> set always_safe" by blast
    from always_safe_ascii [OF this] show ?thesis by simp
  qed
  then show ?thesis by (simp add: is_str_def list_all_iff)
qed

lemma quote_from_bytes_plain:
  "set s \<subseteq> set always_safe \<Longrightarrow> quote_from_bytes (concat (map utf8_char s)) safe = s"
proof (induction s)
  case Nil
  then show ?case by (simp add: quote_from_bytes_def)
next
  case (Cons c s)
  then have c: "c \<in> set always_safe" and "c < 128"
    by (auto simp: always_safe_iff)
  then have "quoter (filter (\<lambda>c. c < 128) safe) (of_nat c) = [c]"
    by (simp add: quoter_def unat_byte)
  with Cons \<open>c < 128\<close> show ?case
    by (simp add: quote_from_bytes_def utf8_char_def)
qed

lemma quote_plus_plain: "set s \<subseteq> set always_safe \<Longrightarrow> quote_plus s = Inr s"
proof -
  assume s: "set s \<subseteq> set always_safe"
  then have "32 \<notin> set s" by (auto simp: always_safe_iff)
  then show ?thesis
    using s by (simp add: quote_plus_def quote_Inr safe_no_surrogate quote_from_bytes_plain)
qed

lemma quote_plus_decimal: "quote_plus (decimal i) = Inr (decimal i)"
  by (rule quote_plus_plain) (rule decimal_safe)

lemma quote_plus_SSL: "quote_plus (lit ''SSL'') = Inr (lit ''SSL'')"
  by (rule quote_plus_plain) (simp add: lit_def always_safe_iff)

section \<open>Facts about \<open>str\<close> of an \<open>int\<close>\<close>

lemma decimal_no_surrogate: "\<not> list_ex is_surrogate (decimal i)"
  by (rule safe_no_surrogate) (rule decimal_safe)

lemma decimal_is_str: "is_str (decimal i)"
  by (rule safe_is_str) (rule decimal_safe)

lemma str_int_Inr: "within_limit i \<Longrightarrow> str_int i = Inr (decimal i)"
  by (simp add: str_int_def)

lemma str_int_Inl: "\<not> within_limit i \<Longrightarrow> str_int i = Inl ValueError"
  by (simp add: str_int_def)

lemma digits_nonempty: "0 < length (digits n)"
  by (subst digits.simps) simp

lemma digits_length: "10 ^ k \<le> n \<Longrightarrow> k < length (digits n)"
proof (induction k arbitrary: n)
  case 0
  show ?case by (rule digits_nonempty)
next
  case (Suc k)
  then have n: "\<not> n < 10" and "10 ^ k \<le> n div 10"
    by (simp_all add: less_eq_div_iff_mult_less_eq mult.commute power_Suc
        order_trans [OF _ Suc.prems] not_less)
  from Suc.IH [OF this(2)] n show ?case
    by (subst digits.simps) simp
qed

lemma beyond_limit: "\<not> within_limit (10 ^ int_max_str_digits)"
proof -
  have "int_max_str_digits < length (digits (10 ^ int_max_str_digits))"
    by (rule digits_length) simp
  then show ?thesis by (simp add: within_limit_def nat_power_eq)
qed

lemma within_50000: "within_limit 50000"
  by (simp add: within_limit_def int_max_str_digits_def digits.simps)

lemma within_10: "within_limit 10"
  by (simp add: within_limit_def int_max_str_digits_def digits.simps)

lemma within_minus_1: "within_limit (- 1)"
  by (simp add: within_limit_def int_max_str_digits_def digits.simps)

lemma decimal_50000: "decimal 50000 = lit ''50000''"
  by (simp add: decimal_def digits.simps lit_def)

lemma decimal_10: "decimal 10 = lit ''10''"
  by (simp add: decimal_def digits.simps lit_def)

lemma decimal_minus_1: "decimal (- 1) = lit ''-1''"
  by (simp add: decimal_def digits.simps lit_def)

section \<open>Facts about the two builders\<close>

lemma is_str_append: "is_str (a @ b) \<longleftrightarrow> is_str a \<and> is_str b"
  by (simp add: is_str_def)



lemma dsn_attrs_Inr:
  assumes "within_limit port" and "within_limit connect_timeout"
  shows "dsn_attrs user password host port database ca_cert_path connect_timeout =
     Inr ([lit ''DATABASE='' @ database, lit ''HOSTNAME='' @ host, lit ''PORT='' @ decimal port,
           lit ''PROTOCOL=TCPIP'', lit ''UID='' @ user, lit ''PWD='' @ password,
           lit ''Security=SSL'', lit ''CONNECTTIMEOUT='' @ decimal connect_timeout]
          @ (if truthy ca_cert_path then [lit ''SSLServerCertificate='' @ the ca_cert_path]
             else []))"
  using assms by (simp add: dsn_attrs_def str_int_Inr)

lemma dsn_attrs_Inl:
  assumes "\<not> (within_limit port \<and> within_limit connect_timeout)"
  shows "dsn_attrs user password host port database ca_cert_path connect_timeout
           = Inl ValueError"
  using assms by (auto simp: dsn_attrs_def str_int_def)

lemma dsn_Inr:
  assumes "within_limit port" and "within_limit connect_timeout"
  shows "dsn user password host port database ca_cert_path connect_timeout =
     Inr (lit ''DATABASE='' @ database @ lit '';HOSTNAME='' @ host @ lit '';PORT=''
          @ decimal port @ lit '';PROTOCOL=TCPIP;UID='' @ user @ lit '';PWD='' @ password
          @ lit '';Security=SSL;CONNECTTIMEOUT='' @ decimal connect_timeout
          @ (if truthy ca_cert_path then lit '';SSLServerCertificate='' @ the ca_cert_path
             else []))"
  unfolding dsn_def dsn_attrs_Inr [OF assms] by (simp add: lit_def)

lemma dsn_Inl:
  assumes "\<not> (within_limit port \<and> within_limit connect_timeout)"
  shows "dsn user password host port database ca_cert_path connect_timeout = Inl ValueError"
  unfolding dsn_def dsn_attrs_Inl [OF assms] by simp

lemma dsn_Inr_D:
  assumes "dsn user password host port database ca_cert_path connect_timeout = Inr d"
  shows "within_limit port" and "within_limit connect_timeout"
    and "d = lit ''DATABASE='' @ database @ lit '';HOSTNAME='' @ host @ lit '';PORT=''
          @ decimal port @ lit '';PROTOCOL=TCPIP;UID='' @ user @ lit '';PWD='' @ password
          @ lit '';Security=SSL;CONNECTTIMEOUT='' @ decimal connect_timeout
          @ (if truthy ca_cert_path then lit '';SSLServerCertificate='' @ the ca_cert_path
             else [])"
proof -
  have w: "within_limit port \<and> within_limit connect_timeout"
  proof (rule ccontr)
    assume "\<not> (within_limit port \<and> within_limit connect_timeout)"
    from dsn_Inl [OF this] assms show False by simp
  qed
  then show "within_limit port" and "within_limit connect_timeout" by simp_all
  from w assms show "d = lit ''DATABASE='' @ database @ lit '';HOSTNAME='' @ host @ lit '';PORT=''
          @ decimal port @ lit '';PROTOCOL=TCPIP;UID='' @ user @ lit '';PWD='' @ password
          @ lit '';Security=SSL;CONNECTTIMEOUT='' @ decimal connect_timeout
          @ (if truthy ca_cert_path then lit '';SSLServerCertificate='' @ the ca_cert_path
             else [])"
    by (simp add: dsn_Inr)
qed

lemma dsn_surrogate:
  assumes "dsn user password host port database ca_cert_path connect_timeout = Inr d"
  shows "list_ex is_surrogate d
     \<longleftrightarrow> list_ex is_surrogate (user @ password @ host @ database @ path_text ca_cert_path)"
  unfolding dsn_Inr_D(3) [OF assms]
  by (auto simp: lit_no_surrogate decimal_no_surrogate truthy_def path_text_def
      split: option.splits)

lemma dsn_is_str:
  assumes "dsn user password host port database ca_cert_path connect_timeout = Inr d"
    and "is_str (user @ password @ host @ database @ path_text ca_cert_path)"
  shows "is_str d"
  unfolding dsn_Inr_D(3) [OF assms(1)] using assms(2)
  by (auto simp: is_str_append lit_is_str decimal_is_str truthy_def path_text_def
      split: option.splits)

lemma dsn_url_Inr:
  assumes "create_engine_with_dsn user password host port database ca_cert_path connect_timeout
             = Inr eng"
  obtains d token where
    "dsn user password host port database ca_cert_path connect_timeout = Inr d"
    and "quote_plus d = Inr token"
    and "eng = create_engine (lit ''ibm_db_sa:///?dsn='' @ token)"
  using assms by (auto simp: create_engine_with_dsn_def split: sum.splits)

lemma token_reserved:
  assumes "quote_plus s = Inr t"
  shows "set t \<inter> set (lit '';=&@?#/ '') = {}"
proof -
  have "c \<notin> set (lit '';=&@?#/ '')" if "c \<in> set t" for c
  proof -
    from that quote_plus_alphabet [OF assms]
    have "c \<in> set always_safe \<or> c = 37 \<or> c = 43" by blast
    then show ?thesis by (auto simp: always_safe_iff lit_def)
  qed
  then show ?thesis by blast
qed

lemma params_Inr:
  "within_limit connect_timeout \<Longrightarrow>
   params ca_cert_path connect_timeout =
     Inr ([(lit ''security'', lit ''SSL''), (lit ''connecttimeout'', decimal connect_timeout)]
          @ (if truthy ca_cert_path then [(lit ''SSLServerCertificate'', the ca_cert_path)]
             else []))"
  by (simp add: params_def str_int_Inr)

lemma quote_values_params:
  "quote_values
     ([(lit ''security'', lit ''SSL''), (lit ''connecttimeout'', decimal connect_timeout)]
      @ (if truthy ca_cert_path then [(lit ''SSLServerCertificate'', the ca_cert_path)]
         else [])) =
     (if truthy ca_cert_path then
        (case quote_plus (the ca_cert_path) of
           Inl e \<Rightarrow> Inl e
         | Inr q \<Rightarrow>
             Inr [lit ''security=SSL'', lit ''connecttimeout='' @ decimal connect_timeout,
                  lit ''SSLServerCertificate='' @ q])
      else Inr [lit ''security=SSL'', lit ''connecttimeout='' @ decimal connect_timeout])"
proof -
  have s: "lit ''security'' @ lit ''='' @ lit ''SSL'' = lit ''security=SSL''"
    and c: "lit ''connecttimeout'' @ lit ''='' @ x = lit ''connecttimeout='' @ x"
    and k: "lit ''SSLServerCertificate'' @ lit ''='' @ y = lit ''SSLServerCertificate='' @ y"
    for x y by (simp_all add: lit_def)
  show ?thesis
    by (simp add: quote_plus_SSL quote_plus_decimal s c k split: sum.splits)
qed

lemma url_params_flat:
  assumes "quote_plus user = Inr quser" and "quote_plus password = Inr qpassword"
    and "within_limit port" and "within_limit connect_timeout"
    and "truthy ca_cert_path \<Longrightarrow> quote_plus (the ca_cert_path) = Inr qcert"
  shows "create_engine_with_url_params user password host port database ca_cert_path
           connect_timeout =
         Inr (create_engine
           (lit ''ibm_db_sa://'' @ quser @ lit '':'' @ qpassword @ lit ''@'' @ host @ lit '':''
            @ decimal port @ lit ''/'' @ database
            @ lit ''?security=SSL&connecttimeout='' @ decimal connect_timeout
            @ (if truthy ca_cert_path then lit ''&SSLServerCertificate='' @ qcert else [])))"
  unfolding create_engine_with_url_params_def assms(1) assms(2) str_int_Inr [OF assms(3)]
    params_Inr [OF assms(4)] sum.case Let_def quote_values_params
  using assms(5) by (simp add: lit_def)

lemma url_params_Inr:
  assumes "create_engine_with_url_params user password host port database ca_cert_path
             connect_timeout = Inr eng"
  obtains quser qpassword qcert where
    "quote_plus user = Inr quser" and "quote_plus password = Inr qpassword"
    and "within_limit port" and "within_limit connect_timeout"
    and "if truthy ca_cert_path then quote_plus (the ca_cert_path) = Inr qcert else qcert = []"
    and "eng = create_engine
           (lit ''ibm_db_sa://'' @ quser @ lit '':'' @ qpassword @ lit ''@'' @ host @ lit '':''
            @ decimal port @ lit ''/'' @ database
            @ lit ''?security=SSL&connecttimeout='' @ decimal connect_timeout
            @ (if truthy ca_cert_path then lit ''&SSLServerCertificate='' @ qcert else []))"
proof -
  from assms obtain quser where u: "quote_plus user = Inr quser"
    by (auto simp: create_engine_with_url_params_def split: sum.splits)
  from assms u obtain qpassword where p: "quote_plus password = Inr qpassword"
    by (auto simp: create_engine_with_url_params_def split: sum.splits)
  from assms u p have wp: "within_limit port"
    by (auto simp: create_engine_with_url_params_def str_int_def split: sum.splits if_splits)
  from assms u p wp have wt: "within_limit connect_timeout"
    by (auto simp: create_engine_with_url_params_def str_int_Inr params_def str_int_def
        split: sum.splits if_splits)
  from assms u p wp wt obtain qcert where
    c: "if truthy ca_cert_path then quote_plus (the ca_cert_path) = Inr qcert else qcert = []"
    by (auto simp: create_engine_with_url_params_def str_int_Inr params_Inr quote_values_params
        split: sum.splits if_splits)
  from c have "truthy ca_cert_path \<Longrightarrow> quote_plus (the ca_cert_path) = Inr qcert"
    by simp
  from url_params_flat [OF u p wp wt this, of host database] assms
  have "eng = create_engine
           (lit ''ibm_db_sa://'' @ quser @ lit '':'' @ qpassword @ lit ''@'' @ host @ lit '':''
            @ decimal port @ lit ''/'' @ database
            @ lit ''?security=SSL&connecttimeout='' @ decimal connect_timeout
            @ (if truthy ca_cert_path then lit ''&SSLServerCertificate='' @ qcert else []))"
    by simp
  with u p wp wt c show ?thesis by (rule that)
qed

section \<open>Facts about reading a descriptor\<close>

lemma split_on_sep:
  "sep \<notin> set a \<Longrightarrow> split_on sep (a @ sep # rest) = a # split_on sep rest"
  by (induction a) auto

lemma split_on_join:
  "xs \<noteq> [] \<Longrightarrow> \<forall>a\<in>set xs. sep \<notin> set a \<Longrightarrow> split_on sep (join [sep] xs) = xs"
proof (induction "[sep]" xs rule: join.induct)
  case 1
  then show ?case by simp
next
  case (2 x)
  then show ?case by (simp add: split_on_absent)
next
  case (3 x y ys)
  then show ?case by (simp add: split_on_sep)
qed

lemma query_string_found:
  "ch CHR ''?'' \<notin> set a \<Longrightarrow> query_string (a @ ch CHR ''?'' # q) = Some q"
  by (induction a) (auto simp: query_string_def)

lemma dsn_attributes_url:
  assumes "quote_plus d = Inr token" and "is_str d"
  shows "dsn_attributes (lit ''ibm_db_sa:///?dsn='' @ token) =
           map name_value (split_on (ch CHR '';'') d)"
proof -
  have "set token \<inter> set (lit '';=&@?#/ '') = {}"
    using assms(1) by (rule token_reserved)
  then have "38 \<notin> set token" by (auto simp: lit_def)
  then have "query_params (lit ''ibm_db_sa:///?dsn='' @ token) = [(lit ''dsn'', token)]"
    by (rule query_params_dsn)
  moreover have "unquote_plus token = d"
    using assms(2) assms(1) by (rule unquote_plus_quote_plus)
  ultimately show ?thesis by (simp add: dsn_attributes_def)
qed

lemma decimal_no_delimiter:
  "ch CHR '';'' \<notin> set (decimal i)" "ch CHR ''?'' \<notin> set (decimal i)"
  "ch CHR ''&'' \<notin> set (decimal i)"
proof -
  have "c \<notin> set (decimal i)" if "c \<notin> set always_safe" for c
    using that decimal_safe [of i] by blast
  then show "ch CHR '';'' \<notin> set (decimal i)" "ch CHR ''?'' \<notin> set (decimal i)"
    "ch CHR ''&'' \<notin> set (decimal i)"
    by (simp_all add: always_safe_iff)
qed

lemma dsn_descriptor_attributes:
  assumes "is_str (user @ password @ host @ database @ path_text ca_cert_path)"
    and "create_engine_with_dsn user password host port database ca_cert_path connect_timeout
           = Inr eng"
    and "ch CHR '';'' \<notin> set (user @ password @ host @ database @ path_text ca_cert_path)"
  shows "dsn_attributes (url eng) =
           [(lit ''DATABASE'', database), (lit ''HOSTNAME'', host), (lit ''PORT'', decimal port),
            (lit ''PROTOCOL'', lit ''TCPIP''), (lit ''UID'', user), (lit ''PWD'', password),
            (lit ''Security'', lit ''SSL''),
            (lit ''CONNECTTIMEOUT'', decimal connect_timeout)]
           @ (if truthy ca_cert_path then [(lit ''SSLServerCertificate'', the ca_cert_path)]
              else [])"
proof -
  from assms(2) obtain d token where
    d: "dsn user password host port database ca_cert_path connect_timeout = Inr d"
    and q: "quote_plus d = Inr token"
    and e: "eng = create_engine (lit ''ibm_db_sa:///?dsn='' @ token)"
    by (rule dsn_url_Inr)
  define attrs where "attrs =
     [lit ''DATABASE='' @ database, lit ''HOSTNAME='' @ host, lit ''PORT='' @ decimal port,
      lit ''PROTOCOL=TCPIP'', lit ''UID='' @ user, lit ''PWD='' @ password,
      lit ''Security=SSL'', lit ''CONNECTTIMEOUT='' @ decimal connect_timeout]
     @ (if truthy ca_cert_path then [lit ''SSLServerCertificate='' @ the ca_cert_path] else [])"
  have w: "within_limit port" "within_limit connect_timeout"
    using d by (rule dsn_Inr_D)+
  have "dsn_attrs user password host port database ca_cert_path connect_timeout = Inr attrs"
    unfolding attrs_def by (rule dsn_attrs_Inr [OF w])
  with d have j: "d = join [ch CHR '';''] attrs"
    by (simp add: dsn_def lit_def)
  have c: "truthy ca_cert_path \<Longrightarrow> ch CHR '';'' \<notin> set (the ca_cert_path)"
    using assms(3) by (auto simp: truthy_def path_text_def split: option.splits)
  have "\<forall>a\<in>set attrs. ch CHR '';'' \<notin> set a"
    unfolding attrs_def using assms(3) c decimal_no_delimiter(1)
    by (simp add: lit_def)
  moreover have "attrs \<noteq> []" by (simp add: attrs_def)
  ultimately have "split_on (ch CHR '';'') d = attrs"
    unfolding j by (rule split_on_join [rotated])
  moreover have "is_str d" using d assms(1) by (rule dsn_is_str)
  ultimately have "dsn_attributes (url eng) = map name_value attrs"
    unfolding e using dsn_attributes_url [OF q] by (simp add: create_engine_def)
  also have "\<dots> =
           [(lit ''DATABASE'', database), (lit ''HOSTNAME'', host), (lit ''PORT'', decimal port),
            (lit ''PROTOCOL'', lit ''TCPIP''), (lit ''UID'', user), (lit ''PWD'', password),
            (lit ''Security'', lit ''SSL''),
            (lit ''CONNECTTIMEOUT'', decimal connect_timeout)]
           @ (if truthy ca_cert_path then [(lit ''SSLServerCertificate'', the ca_cert_path)]
              else [])"
    unfolding attrs_def by (simp add: name_value_def lit_def)
  finally show ?thesis .
qed

lemma url_descriptor_params:
  assumes "create_engine_with_url_params user password host port database ca_cert_path
             connect_timeout = Inr eng"
    and "ch CHR ''?'' \<notin> set (host @ database)"
  shows "\<exists>qcert.
           (if truthy ca_cert_path then quote_plus (the ca_cert_path) = Inr qcert
            else qcert = [])
         \<and> query_params (url eng) =
             [(lit ''security'', lit ''SSL''), (lit ''connecttimeout'', decimal connect_timeout)]
             @ (if truthy ca_cert_path then [(lit ''SSLServerCertificate'', qcert)] else [])"
proof -
  from assms(1) obtain quser qpassword qcert where
    u: "quote_plus user = Inr quser" and p: "quote_plus password = Inr qpassword"
    and c: "if truthy ca_cert_path then quote_plus (the ca_cert_path) = Inr qcert
            else qcert = []"
    and e: "eng = create_engine
           (lit ''ibm_db_sa://'' @ quser @ lit '':'' @ qpassword @ lit ''@'' @ host @ lit '':''
            @ decimal port @ lit ''/'' @ database
            @ lit ''?security=SSL&connecttimeout='' @ decimal connect_timeout
            @ (if truthy ca_cert_path then lit ''&SSLServerCertificate='' @ qcert else []))"
    by (rule url_params_Inr)
  define base where "base =
     lit ''ibm_db_sa://'' @ quser @ lit '':'' @ qpassword @ lit ''@'' @ host @ lit '':''
     @ decimal port @ lit ''/'' @ database"
  define tail where "tail =
     (if truthy ca_cert_path then [lit ''SSLServerCertificate='' @ qcert] else [])"
  have r: "ch CHR ''?'' \<notin> set quser" "ch CHR ''?'' \<notin> set qpassword"
    using token_reserved [OF u] token_reserved [OF p] by (auto simp: lit_def)
  have b: "ch CHR ''?'' \<notin> set base"
    unfolding base_def using r assms(2) decimal_no_delimiter(2) by (simp add: lit_def)
  have "url eng = base @ ch CHR ''?''
      # join [ch CHR ''&'']
          ([lit ''security=SSL'', lit ''connecttimeout='' @ decimal connect_timeout] @ tail)"
    unfolding e base_def tail_def by (simp add: create_engine_def lit_def)
  then have qs: "query_string (url eng) = Some (join [ch CHR ''&'']
          ([lit ''security=SSL'', lit ''connecttimeout='' @ decimal connect_timeout] @ tail))"
    using b by (simp add: query_string_found [simplified])
  have "truthy ca_cert_path \<Longrightarrow> ch CHR ''&'' \<notin> set qcert"
    using c token_reserved [of "the ca_cert_path" qcert] by (auto simp: lit_def)
  then have "\<forall>a\<in>set ([lit ''security=SSL'', lit ''connecttimeout='' @ decimal connect_timeout]
      @ tail). ch CHR ''&'' \<notin> set a"
    unfolding tail_def using decimal_no_delimiter(3) by (simp add: lit_def)
  then have "split_on (ch CHR ''&'') (join [ch CHR ''&'']
          ([lit ''security=SSL'', lit ''connecttimeout='' @ decimal connect_timeout] @ tail)) =
      [lit ''security=SSL'', lit ''connecttimeout='' @ decimal connect_timeout] @ tail"
    by (intro split_on_join) simp_all
  with qs have "query_params (url eng) =
      map name_value
        ([lit ''security=SSL'', lit ''connecttimeout='' @ decimal connect_timeout] @ tail)"
    by (simp add: query_params_def)
  also have "\<dots> =
      [(lit ''security'', lit ''SSL''), (lit ''connecttimeout'', decimal connect_timeout)]
      @ (if truthy ca_cert_path then [(lit ''SSLServerCertificate'', qcert)] else [])"
    unfolding tail_def by (simp add: name_value_def lit_def)
  finally show ?thesis using c by blast
qed

section \<open>The builders on concrete inputs\<close>

text \<open>The definitions that evaluate the quoting of a concrete string.\<close>

lemmas eval_defs =
  lit_def quote_plus_def quote_def encode_utf8_def utf8_char_def is_surrogate_def
  quote_from_bytes_def quoter_def always_safe_def replace_def hexdig_def






lemma negative_port_dsn_engine:
  "create_engine_with_dsn (lit ''u'') (lit ''p'') [] (- 1)
       (lit ''d'') None 10 =
     Inr (create_engine (lit ''ibm_db_sa:///?dsn=DATABASE%3Dd%3BHOSTNAME%3D%3BPORT%3D-1%3BPROTOCOL%3DTCPIP%3BUID%3Du%3BPWD%3Dp%3BSecurity%3DSSL%3BCONNECTTIMEOUT%3D10''))"
  unfolding create_engine_with_dsn_def dsn_Inr [OF within_minus_1 within_10] decimal_minus_1 decimal_10
  by (simp add: truthy_def eval_defs)

lemma quote_plus_a_b: "quote_plus (lit ''a b'') = Inr (lit ''a+b'')"
  by (simp add: eval_defs)

lemma quote_plus_p_ss: "quote_plus (lit ''p@ss!'') = Inr (lit ''p%40ss%21'')"
  by (simp add: eval_defs)


lemma quote_plus_u: "quote_plus (lit ''u'') = Inr (lit ''u'')"
  by (rule quote_plus_plain) (simp add: lit_def always_safe_iff)

lemma quote_plus_p: "quote_plus (lit ''p'') = Inr (lit ''p'')"
  by (rule quote_plus_plain) (simp add: lit_def always_safe_iff)


lemma example_url_engine_no_ca:
  "create_engine_with_url_params (lit ''a b'') (lit ''p@ss!'') (lit ''db.example.com'') 50000
       (lit ''MYDB'') None 10 =
     Inr (create_engine (lit ''ibm_db_sa://a+b:p%40ss%21@db.example.com:50000/MYDB?security=SSL&connecttimeout=10''))"
proof -
  have "truthy None \<Longrightarrow> quote_plus (the None) = Inr []" by (simp add: truthy_def)
  from url_params_flat [OF quote_plus_a_b quote_plus_p_ss within_50000 within_10 this,
      of "lit ''db.example.com''" "lit ''MYDB''"]
  show ?thesis by (simp add: truthy_def decimal_50000 decimal_10 lit_def)
qed

lemma empty_path_url_engine:
  "create_engine_with_url_params (lit ''u'') (lit ''p'') (lit ''h'') 50000 (lit ''MYDB'')
       (Some []) 10 =
     Inr (create_engine (lit ''ibm_db_sa://u:p@h:50000/MYDB?security=SSL&connecttimeout=10''))"
proof -
  have "truthy (Some []) \<Longrightarrow> quote_plus (the (Some [])) = Inr []" by (simp add: truthy_def)
  from url_params_flat [OF quote_plus_u quote_plus_p within_50000 within_10 this,
      of "lit ''h''" "lit ''MYDB''"]
  show ?thesis by (simp add: truthy_def decimal_50000 decimal_10 lit_def)
qed


lemma injected_database_empty_path_url_engine:
  "create_engine_with_url_params (lit ''u'') (lit ''p'') (lit ''h'') 50000
       (lit ''MYDB?SSLServerCertificate=/tmp/evil.pem'') (Some []) 10 =
     Inr (create_engine (lit ''ibm_db_sa://u:p@h:50000/MYDB?SSLServerCertificate=/tmp/evil.pem?security=SSL&connecttimeout=10''))"
proof -
  have "truthy (Some []) \<Longrightarrow> quote_plus (the (Some [])) = Inr []" by (simp add: truthy_def)
  from url_params_flat [OF quote_plus_u quote_plus_p within_50000 within_10 this,
      of "lit ''h''" "lit ''MYDB?SSLServerCertificate=/tmp/evil.pem''"]
  show ?thesis by (simp add: truthy_def decimal_50000 decimal_10 lit_def)
qed




lemma injected_password_empty_path_quote:
  "quote_plus (lit ''DATABASE=MYDB;HOSTNAME=h;PORT=50000;PROTOCOL=TCPIP;UID=db2user;PWD=pw;SSLServerCertificate=/tmp/evil.pem;Security=SSL;CONNECTTIMEOUT=10'') =
     Inr (lit ''DATABASE%3DMYDB%3BHOSTNAME%3Dh%3BPORT%3D50000%3BPROTOCOL%3DTCPIP%3BUID%3Ddb2user%3BPWD%3Dpw%3BSSLServerCertificate%3D%2Ftmp%2Fevil.pem%3BSecurity%3DSSL%3BCONNECTTIMEOUT%3D10'')"
  by (simp add: eval_defs)

lemma injected_password_empty_path_engine:
  "create_engine_with_dsn (lit ''db2user'') (lit ''pw;SSLServerCertificate=/tmp/evil.pem'') (lit ''h'') 50000
       (lit ''MYDB'') (Some []) 10 =
     Inr (create_engine (lit ''ibm_db_sa:///?dsn=DATABASE%3DMYDB%3BHOSTNAME%3Dh%3BPORT%3D50000%3BPROTOCOL%3DTCPIP%3BUID%3Ddb2user%3BPWD%3Dpw%3BSSLServerCertificate%3D%2Ftmp%2Fevil.pem%3BSecurity%3DSSL%3BCONNECTTIMEOUT%3D10''))"
proof -
  have "dsn (lit ''db2user'') (lit ''pw;SSLServerCertificate=/tmp/evil.pem'') (lit ''h'') 50000 (lit ''MYDB'') (Some []) 10 =
      Inr (lit ''DATABASE=MYDB;HOSTNAME=h;PORT=50000;PROTOCOL=TCPIP;UID=db2user;PWD=pw;SSLServerCertificate=/tmp/evil.pem;Security=SSL;CONNECTTIMEOUT=10'')"
    unfolding dsn_Inr [OF within_50000 within_10] decimal_50000 decimal_10
    by (simp add: truthy_def lit_def)
  then show ?thesis
    unfolding create_engine_with_dsn_def by (simp add: injected_password_empty_path_quote) (simp add: lit_def)
qed

lemma injected_password_empty_path_attributes:
  "dsn_attributes (lit ''ibm_db_sa:///?dsn=DATABASE%3DMYDB%3BHOSTNAME%3Dh%3BPORT%3D50000%3BPROTOCOL%3DTCPIP%3BUID%3Ddb2user%3BPWD%3Dpw%3BSSLServerCertificate%3D%2Ftmp%2Fevil.pem%3BSecurity%3DSSL%3BCONNECTTIMEOUT%3D10'') =
     [(lit ''DATABASE'', lit ''MYDB''), (lit ''HOSTNAME'', lit ''h''), (lit ''PORT'', lit ''50000''), (lit ''PROTOCOL'', lit ''TCPIP''), (lit ''UID'', lit ''db2user''), (lit ''PWD'', lit ''pw''), (lit ''SSLServerCertificate'', lit ''/tmp/evil.pem''), (lit ''Security'', lit ''SSL''), (lit ''CONNECTTIMEOUT'', lit ''10'')]"
proof -
  have "dsn_attributes (lit ''ibm_db_sa:///?dsn='' @ lit ''DATABASE%3DMYDB%3BHOSTNAME%3Dh%3BPORT%3D50000%3BPROTOCOL%3DTCPIP%3BUID%3Ddb2user%3BPWD%3Dpw%3BSSLServerCertificate%3D%2Ftmp%2Fevil.pem%3BSecurity%3DSSL%3BCONNECTTIMEOUT%3D10'') =
      map name_value (split_on (ch CHR '';'') (lit ''DATABASE=MYDB;HOSTNAME=h;PORT=50000;PROTOCOL=TCPIP;UID=db2user;PWD=pw;SSLServerCertificate=/tmp/evil.pem;Security=SSL;CONNECTTIMEOUT=10''))"
    by (rule dsn_attributes_url [OF injected_password_empty_path_quote lit_is_str])
  then show ?thesis by (simp add: lit_def name_value_def)
qed

lemma plain_empty_path_quote:
  "quote_plus (lit ''DATABASE=MYDB;HOSTNAME=h;PORT=50000;PROTOCOL=TCPIP;UID=db2user;PWD=db2pwd;Security=SSL;CONNECTTIMEOUT=10'') =
     Inr (lit ''DATABASE%3DMYDB%3BHOSTNAME%3Dh%3BPORT%3D50000%3BPROTOCOL%3DTCPIP%3BUID%3Ddb2user%3BPWD%3Ddb2pwd%3BSecurity%3DSSL%3BCONNECTTIMEOUT%3D10'')"
  by (simp add: eval_defs)

lemma plain_empty_path_engine:
  "create_engine_with_dsn (lit ''db2user'') (lit ''db2pwd'') (lit ''h'') 50000
       (lit ''MYDB'') (Some []) 10 =
     Inr (create_engine (lit ''ibm_db_sa:///?dsn=DATABASE%3DMYDB%3BHOSTNAME%3Dh%3BPORT%3D50000%3BPROTOCOL%3DTCPIP%3BUID%3Ddb2user%3BPWD%3Ddb2pwd%3BSecurity%3DSSL%3BCONNECTTIMEOUT%3D10''))"
proof -
  have "dsn (lit ''db2user'') (lit ''db2pwd'') (lit ''h'') 50000 (lit ''MYDB'') (Some []) 10 =
      Inr (lit ''DATABASE=MYDB;HOSTNAME=h;PORT=50000;PROTOCOL=TCPIP;UID=db2user;PWD=db2pwd;Security=SSL;CONNECTTIMEOUT=10'')"
    unfolding dsn_Inr [OF within_50000 within_10] decimal_50000 decimal_10
    by (simp add: truthy_def lit_def)
  then show ?thesis
    unfolding create_engine_with_dsn_def by (simp add: plain_empty_path_quote) (simp add: lit_def)
qed

section \<open>The claims\<close>

text \<open>
  Claim C1.  For every user, password, host, port, database, CA path and timeout,
  \<open>create_engine_with_dsn\<close> assembles the attributes in this order: \<open>DATABASE\<close>,
  \<open>HOSTNAME\<close>, \<open>PORT\<close>, \<open>PROTOCOL=TCPIP\<close>, \<open>UID\<close>, \<open>PWD\<close>, \<open>Security=SSL\<close>,
  \<open>CONNECTTIMEOUT\<close>, followed by \<open>SSLServerCertificate\<close> only when a CA path is given
  (and not empty), and joins them with \<open>;\<close>.  The joined string is what the function
  quotes and puts behind \<open>ibm_db_sa:///?dsn=\<close>.  The list exists whenever \<open>str(port)\<close>
  and \<open>str(connect_timeout)\<close> return; otherwise the \<open>ValueError\<close> of \<open>str\<close> leaves the
  function.
\<close>

theorem C1_dsn_attribute_order:
  "dsn_attrs user password host port database ca_cert_path connect_timeout =
     (if within_limit port \<and> within_limit connect_timeout
      then Inr ([lit ''DATABASE='' @ database, lit ''HOSTNAME='' @ host, lit ''PORT='' @ decimal port,
            lit ''PROTOCOL=TCPIP'', lit ''UID='' @ user, lit ''PWD='' @ password,
            lit ''Security=SSL'', lit ''CONNECTTIMEOUT='' @ decimal connect_timeout]
                @ (case ca_cert_path of
                     None \<Rightarrow> []
                   | Some p \<Rightarrow> if p = [] then [] else [lit ''SSLServerCertificate='' @ p]))
      else Inl ValueError)
   \<and> dsn user password host port database ca_cert_path connect_timeout =
     (if within_limit port \<and> within_limit connect_timeout
      then Inr (lit ''DATABASE='' @ database @ lit '';HOSTNAME='' @ host @ lit '';PORT=''
            @ decimal port @ lit '';PROTOCOL=TCPIP;UID='' @ user @ lit '';PWD='' @ password
            @ lit '';Security=SSL;CONNECTTIMEOUT='' @ decimal connect_timeout
                @ (case ca_cert_path of
                     None \<Rightarrow> []
                   | Some p \<Rightarrow> if p = [] then [] else lit '';SSLServerCertificate='' @ p))
      else Inl ValueError)
   \<and> map_sum id url (create_engine_with_dsn user password host port database ca_cert_path connect_timeout) =
     (case dsn user password host port database ca_cert_path connect_timeout of
        Inl e \<Rightarrow> Inl e
      | Inr d \<Rightarrow> map_sum id (\<lambda>encoded_dsn. lit ''ibm_db_sa:///?dsn='' @ encoded_dsn)
                 (quote_plus d))"
proof (intro conjI)
  have t: "(if truthy ca_cert_path then [lit ''SSLServerCertificate='' @ the ca_cert_path]
            else []) =
           (case ca_cert_path of
              None \<Rightarrow> []
            | Some p \<Rightarrow> if p = [] then [] else [lit ''SSLServerCertificate='' @ p])"
    and t': "(if truthy ca_cert_path then lit '';SSLServerCertificate='' @ the ca_cert_path
              else []) =
             (case ca_cert_path of
                None \<Rightarrow> []
              | Some p \<Rightarrow> if p = [] then [] else lit '';SSLServerCertificate='' @ p)"
    by (simp_all add: truthy_def split: option.splits)
  show "dsn_attrs user password host port database ca_cert_path connect_timeout =
     (if within_limit port \<and> within_limit connect_timeout
      then Inr ([lit ''DATABASE='' @ database, lit ''HOSTNAME='' @ host, lit ''PORT='' @ decimal port,
            lit ''PROTOCOL=TCPIP'', lit ''UID='' @ user, lit ''PWD='' @ password,
            lit ''Security=SSL'', lit ''CONNECTTIMEOUT='' @ decimal connect_timeout]
                @ (case ca_cert_path of
                     None \<Rightarrow> []
                   | Some p \<Rightarrow> if p = [] then [] else [lit ''SSLServerCertificate='' @ p]))
      else Inl ValueError)"
  proof (cases "within_limit port \<and> within_limit connect_timeout")
    case True
    then show ?thesis unfolding t [symmetric] by (simp add: dsn_attrs_Inr)
  next
    case False
    then show ?thesis using dsn_attrs_Inl [OF False] by simp
  qed
  show "dsn user password host port database ca_cert_path connect_timeout =
     (if within_limit port \<and> within_limit connect_timeout
      then Inr (lit ''DATABASE='' @ database @ lit '';HOSTNAME='' @ host @ lit '';PORT=''
            @ decimal port @ lit '';PROTOCOL=TCPIP;UID='' @ user @ lit '';PWD='' @ password
            @ lit '';Security=SSL;CONNECTTIMEOUT='' @ decimal connect_timeout
                @ (case ca_cert_path of
                     None \<Rightarrow> []
                   | Some p \<Rightarrow> if p = [] then [] else lit '';SSLServerCertificate='' @ p))
      else Inl ValueError)"
  proof (cases "within_limit port \<and> within_limit connect_timeout")
    case True
    then show ?thesis unfolding t' [symmetric] by (simp add: dsn_Inr)
  next
    case False
    then show ?thesis using dsn_Inl [OF False] by simp
  qed
  show "map_sum id url (create_engine_with_dsn user password host port database ca_cert_path connect_timeout) =
     (case dsn user password host port database ca_cert_path connect_timeout of
        Inl e \<Rightarrow> Inl e
      | Inr d \<Rightarrow> map_sum id (\<lambda>encoded_dsn. lit ''ibm_db_sa:///?dsn='' @ encoded_dsn)
                 (quote_plus d))"
    by (simp add: create_engine_with_dsn_def create_engine_def split: sum.splits)
qed

text \<open>The attribute list for the defaults of \<open>app.py\<close>.\<close>

theorem C1_dsn_attribute_order_witness:
  "dsn (lit ''db2user'') (lit ''db2pwd'') (lit ''db2-prod.example.com'') 50000 (lit ''MYDB'')
       (Some (lit ''/path/to/ca_certificate.pem'')) 10 =
     Inr (lit ''DATABASE=MYDB;HOSTNAME=db2-prod.example.com;PORT=50000;PROTOCOL=TCPIP;UID=db2user;PWD=db2pwd;Security=SSL;CONNECTTIMEOUT=10;SSLServerCertificate=/path/to/ca_certificate.pem'')"
  using C1_dsn_attribute_order [of "lit ''db2user''" "lit ''db2pwd''"
      "lit ''db2-prod.example.com''" 50000 "lit ''MYDB''"
      "Some (lit ''/path/to/ca_certificate.pem'')" 10]
  by (simp add: within_50000 within_10 decimal_50000 decimal_10) (simp add: lit_def)










text \<open>
  Claim C6, as amended.  When \<open>connect\<close> or \<open>execute\<close> raises, the error that reaches the
  handler is the one raised, or the error of the release when the \<open>with\<close> block was
  entered and its release raises too.  If that error is an instance of
  \<open>SQLAlchemyError\<close>, \<open>test_connection\<close> prints \<open>Connection test failed:\<close> with its
  text and returns \<open>False\<close>; an error of any other class is not caught: nothing is
  printed and it propagates to the caller.
\<close>

theorem C6_caught_errors:
  assumes "connect eng = Inl e \<or>
           (\<exists>conn. connect eng = Inr conn \<and>
              execute conn (lit ''SELECT 1 FROM SYSIBM.SYSDUMMY1'') = Inl e)"
  shows "test_connection eng out =
           (let raised = (case connect eng of
                            Inl _ \<Rightarrow> e
                          | Inr conn \<Rightarrow> (case release conn of None \<Rightarrow> e | Some r \<Rightarrow> r))
            in if isinstance raised ''SQLAlchemyError''
               then (out @ [lit ''Connection test failed: '' @ exc_str raised], Inr False)
               else (out, Inl raised))"
  using assms
  by (auto simp: test_connection_def leave_with_def except_clause_def Let_def
      split: option.splits)

text \<open>An \<open>OperationalError\<close> on \<open>execute\<close> is caught.\<close>

theorem C6_caught_errors_witness:
  "test_connection (stub_engine (Inl operational_error) None) [] =
     ([lit ''Connection test failed: connection refused''], Inr False)"
proof -
  have "connect (stub_engine (Inl operational_error) None) = Inl operational_error \<or>
      (\<exists>conn. connect (stub_engine (Inl operational_error) None) = Inr conn \<and>
         execute conn (lit ''SELECT 1 FROM SYSIBM.SYSDUMMY1'') = Inl operational_error)"
    by (simp add: stub_engine_def)
  from C6_caught_errors [OF this, of "[]"] show ?thesis
    by (simp add: stub_engine_def isinstance_def operational_error_def lit_def)
qed

text \<open>
  Claim C6 as stated fails for an error outside SQLAlchemy's hierarchy: a stub engine
  whose \<open>execute\<close> raises a \<open>RuntimeError\<close> makes \<open>test_connection\<close> raise it.
\<close>

theorem C6_uncaught_class_counterexample:
  "test_connection (stub_engine (Inl runtime_error) None) [] = ([], Inl runtime_error)"
  by (simp add: test_connection_def stub_engine_def leave_with_def except_clause_def
      isinstance_def runtime_error_def)




text \<open>
  Claim C8, as amended.  \<open>create_engine_with_dsn\<close> validates nothing: host, port and
  timeout stand in the attribute list as they were given, whatever their values.  It
  returns a descriptor on every input whose port and timeout have at most 4300 decimal
  digits and whose strings hold no lone surrogate code point.  On every other input it
  raises: \<open>ValueError\<close> (from \<open>str\<close>) when the port or the timeout has more digits,
  \<open>UnicodeEncodeError\<close> (from \<open>quote_plus\<close>) otherwise.
\<close>

theorem C8_no_validation:
  "(if within_limit port \<and> within_limit connect_timeout
    then \<exists>attrs d.
           dsn_attrs user password host port database ca_cert_path connect_timeout = Inr attrs
         \<and> attrs ! 1 = lit ''HOSTNAME='' @ host
         \<and> attrs ! 2 = lit ''PORT='' @ decimal port
         \<and> attrs ! 7 = lit ''CONNECTTIMEOUT='' @ decimal connect_timeout
         \<and> d = join (lit '';'') attrs
         \<and> dsn user password host port database ca_cert_path connect_timeout = Inr d
         \<and> (if list_ex is_surrogate (user @ password @ host @ database @ path_text ca_cert_path)
              then create_engine_with_dsn user password host port database ca_cert_path connect_timeout =
                     Inl (UnicodeEncodeError d
                            (length (takeWhile (\<lambda>c. \<not> is_surrogate c) d)))
              else \<exists>token.
                     quote_plus d = Inr token
                   \<and> create_engine_with_dsn user password host port database ca_cert_path connect_timeout =
                       Inr (create_engine (lit ''ibm_db_sa:///?dsn='' @ token)))
    else create_engine_with_dsn user password host port database ca_cert_path connect_timeout = Inl ValueError)"
proof (cases "within_limit port \<and> within_limit connect_timeout")
  case False
  then show ?thesis
    unfolding create_engine_with_dsn_def dsn_Inl [OF False] by simp
next
  case True
  then have w: "within_limit port" "within_limit connect_timeout" by simp_all
  define attrs where "attrs =
      [lit ''DATABASE='' @ database, lit ''HOSTNAME='' @ host, lit ''PORT='' @ decimal port,
       lit ''PROTOCOL=TCPIP'', lit ''UID='' @ user, lit ''PWD='' @ password,
       lit ''Security=SSL'', lit ''CONNECTTIMEOUT='' @ decimal connect_timeout]
      @ (if truthy ca_cert_path then [lit ''SSLServerCertificate='' @ the ca_cert_path]
         else [])"
  define d where "d = join (lit '';'') attrs"
  have a: "dsn_attrs user password host port database ca_cert_path connect_timeout = Inr attrs"
    unfolding attrs_def by (rule dsn_attrs_Inr [OF w])
  have n: "attrs ! 1 = lit ''HOSTNAME='' @ host" "attrs ! 2 = lit ''PORT='' @ decimal port"
    "attrs ! 7 = lit ''CONNECTTIMEOUT='' @ decimal connect_timeout"
    by (simp_all add: attrs_def)
  have e: "dsn user password host port database ca_cert_path connect_timeout = Inr d"
    unfolding dsn_def a d_def by simp
  have "if list_ex is_surrogate (user @ password @ host @ database @ path_text ca_cert_path)
        then create_engine_with_dsn user password host port database ca_cert_path connect_timeout =
               Inl (UnicodeEncodeError d (length (takeWhile (\<lambda>c. \<not> is_surrogate c) d)))
        else \<exists>token.
               quote_plus d = Inr token
             \<and> create_engine_with_dsn user password host port database ca_cert_path connect_timeout =
                 Inr (create_engine (lit ''ibm_db_sa:///?dsn='' @ token))"
  proof (cases "list_ex is_surrogate d")
    case True
    from quote_plus_Inl [OF True] True dsn_surrogate [OF e] show ?thesis
      unfolding create_engine_with_dsn_def e by simp
  next
    case False
    from quote_plus_Inr [OF False] obtain token where "quote_plus d = Inr token" ..
    with False dsn_surrogate [OF e] show ?thesis
      unfolding create_engine_with_dsn_def e by simp
  qed
  with True a n e show ?thesis
    unfolding d_def by simp
qed

text \<open>A negative port and an empty host.\<close>

theorem C8_no_validation_witness:
  "create_engine_with_dsn (lit ''u'') (lit ''p'') [] (- 1) (lit ''d'') None 10 =
     Inr (create_engine (lit ''ibm_db_sa:///?dsn=DATABASE%3Dd%3BHOSTNAME%3D%3BPORT%3D-1%3BPROTOCOL%3DTCPIP%3BUID%3Du%3BPWD%3Dp%3BSecurity%3DSSL%3BCONNECTTIMEOUT%3D10''))
   \<and> (\<exists>attrs. dsn_attrs (lit ''u'') (lit ''p'') [] (- 1) (lit ''d'') None 10 = Inr attrs
         \<and> attrs ! 1 = lit ''HOSTNAME='' \<and> attrs ! 2 = lit ''PORT=-1'')"
proof -
  note c = C8_no_validation [of "- 1" 10 "lit ''u''" "lit ''p''" "[]" "lit ''d''" None]
  have n: "\<not> list_ex is_surrogate (lit ''u'' @ lit ''p'' @ [] @ lit ''d'' @ path_text None)"
    by (simp add: lit_no_surrogate path_text_def)
  from c n within_minus_1 within_10 obtain attrs where
    "dsn_attrs (lit ''u'') (lit ''p'') [] (- 1) (lit ''d'') None 10 = Inr attrs"
    "attrs ! 1 = lit ''HOSTNAME='' @ []" "attrs ! 2 = lit ''PORT='' @ decimal (- 1)"
    by auto
  then have "\<exists>attrs. dsn_attrs (lit ''u'') (lit ''p'') [] (- 1) (lit ''d'') None 10 = Inr attrs
         \<and> attrs ! 1 = lit ''HOSTNAME='' \<and> attrs ! 2 = lit ''PORT=-1''"
    by (simp add: decimal_minus_1 lit_def)
  with negative_port_dsn_engine show ?thesis by blast
qed

text \<open>
  Claim C8 as stated fails in two ways.  For a user name that is the lone surrogate
  \<open>U+DCFF\<close> (what \<open>os.environ\<close> yields for the undecodable byte \<open>0xFF\<close>) the function
  raises \<open>UnicodeEncodeError\<close>.  For the port \<open>10 ** 4300\<close>, which has 4301 digits, it
  raises \<open>ValueError\<close>.
\<close>

theorem C8_counterexample:
  "create_engine_with_dsn [0xDCFF] (lit ''p'') (lit ''h'') 50000 (lit ''d'') None 10 =
     Inl (UnicodeEncodeError
            (lit ''DATABASE=d;HOSTNAME=h;PORT=50000;PROTOCOL=TCPIP;UID='' @ [0xDCFF]
             @ lit '';PWD=p;Security=SSL;CONNECTTIMEOUT=10'') 52)
   \<and> int_max_str_digits = 4300
   \<and> create_engine_with_dsn (lit ''u'') (lit ''p'') (lit ''h'') (10 ^ int_max_str_digits)
       (lit ''d'') None 10 = Inl ValueError"
proof (intro conjI)
  show "create_engine_with_dsn [0xDCFF] (lit ''p'') (lit ''h'') 50000 (lit ''d'') None 10 =
     Inl (UnicodeEncodeError
            (lit ''DATABASE=d;HOSTNAME=h;PORT=50000;PROTOCOL=TCPIP;UID='' @ [0xDCFF]
             @ lit '';PWD=p;Security=SSL;CONNECTTIMEOUT=10'') 52)"
    unfolding create_engine_with_dsn_def dsn_Inr [OF within_50000 within_10]
      decimal_50000 decimal_10
    by (simp add: truthy_def eval_defs)
  show "int_max_str_digits = 4300" by (rule int_max_str_digits_def)
  have "\<not> (within_limit (10 ^ int_max_str_digits) \<and> within_limit 10)"
    using beyond_limit by simp
  then show "create_engine_with_dsn (lit ''u'') (lit ''p'') (lit ''h'') (10 ^ int_max_str_digits)
       (lit ''d'') None 10 = Inl ValueError"
    unfolding create_engine_with_dsn_def by (simp add: dsn_Inl)
qed

text \<open>
  Claim C9.  For user \<open>a b\<close>, password \<open>p@ss!\<close>, host \<open>db.example.com\<close>, port 50000,
  database \<open>MYDB\<close> and timeout 10 (no CA path), \<open>create_engine_with_url_params\<close> gives a
  URL whose credentials are \<open>a+b\<close> and \<open>p%40ss%21\<close>: the password is quoted and holds
  neither \<open>@\<close> nor \<open>!\<close>.
\<close>

theorem C9_example_credentials:
  "create_engine_with_url_params (lit ''a b'') (lit ''p@ss!'') (lit ''db.example.com'') 50000
       (lit ''MYDB'') None 10 =
     Inr (create_engine (lit ''ibm_db_sa://a+b:p%40ss%21@db.example.com:50000/MYDB?security=SSL&connecttimeout=10''))
   \<and> quote_plus (lit ''a b'') = Inr (lit ''a+b'')
   \<and> quote_plus (lit ''p@ss!'') = Inr (lit ''p%40ss%21'')
   \<and> ch CHR ''@'' \<notin> set (lit ''p%40ss%21'')
   \<and> ch CHR ''!'' \<notin> set (lit ''p%40ss%21'')"
  using example_url_engine_no_ca quote_plus_a_b quote_plus_p_ss by (simp add: lit_def)


text \<open>
  Claim C10, as amended.  An empty \<open>ca_cert_path\<close> is treated as an omitted one: each
  builder returns for \<open>""\<close> what it returns for \<open>None\<close>.  For \<open>ca_cert_path=""\<close> the
  descriptor of \<open>create_engine_with_dsn\<close> has no \<open>SSLServerCertificate\<close> attribute when
  user, password, host and database hold no \<open>;\<close> (read back, it gives the eight fixed
  attributes), and the descriptor of \<open>create_engine_with_url_params\<close> has no
  \<open>SSLServerCertificate\<close> parameter when host and database hold no \<open>?\<close> (read back, it
  gives \<open>security\<close> and \<open>connecttimeout\<close> only).
\<close>

theorem C10_empty_ca_path:
  "create_engine_with_dsn user password host port database (Some []) connect_timeout =
     create_engine_with_dsn user password host port database None connect_timeout
   \<and> create_engine_with_url_params user password host port database (Some []) connect_timeout =
     create_engine_with_url_params user password host port database None connect_timeout
   \<and> (is_str (user @ password @ host @ database)
       \<and> ch CHR '';'' \<notin> set (user @ password @ host @ database)
       \<and> create_engine_with_dsn user password host port database (Some []) connect_timeout = Inr a \<longrightarrow>
        dsn_attributes (url a) =
         [(lit ''DATABASE'', database), (lit ''HOSTNAME'', host), (lit ''PORT'', decimal port),
          (lit ''PROTOCOL'', lit ''TCPIP''), (lit ''UID'', user), (lit ''PWD'', password),
          (lit ''Security'', lit ''SSL''),
          (lit ''CONNECTTIMEOUT'', decimal connect_timeout)]
         \<and> lit ''SSLServerCertificate'' \<notin> fst ` set (dsn_attributes (url a)))
   \<and> (ch CHR ''?'' \<notin> set (host @ database)
       \<and> create_engine_with_url_params user password host port database (Some []) connect_timeout = Inr b \<longrightarrow>
        query_params (url b) =
         [(lit ''security'', lit ''SSL''), (lit ''connecttimeout'', decimal connect_timeout)]
         \<and> lit ''SSLServerCertificate'' \<notin> fst ` set (query_params (url b)))"
proof -
  have c1: "create_engine_with_dsn user password host port database (Some []) connect_timeout =
      create_engine_with_dsn user password host port database None connect_timeout"
    by (simp add: create_engine_with_dsn_def dsn_def dsn_attrs_def truthy_def)
  have p: "params (Some []) connect_timeout = params None connect_timeout"
    by (simp add: params_def truthy_def)
  have c2: "create_engine_with_url_params user password host port database (Some []) connect_timeout =
      create_engine_with_url_params user password host port database None connect_timeout"
    unfolding create_engine_with_url_params_def p ..
  have c3: "dsn_attributes (url a) =
         [(lit ''DATABASE'', database), (lit ''HOSTNAME'', host), (lit ''PORT'', decimal port),
          (lit ''PROTOCOL'', lit ''TCPIP''), (lit ''UID'', user), (lit ''PWD'', password),
          (lit ''Security'', lit ''SSL''),
          (lit ''CONNECTTIMEOUT'', decimal connect_timeout)]
       \<and> lit ''SSLServerCertificate'' \<notin> fst ` set (dsn_attributes (url a))"
    if h: "is_str (user @ password @ host @ database)
       \<and> ch CHR '';'' \<notin> set (user @ password @ host @ database)
       \<and> create_engine_with_dsn user password host port database (Some []) connect_timeout = Inr a"
  proof -
    from h have "is_str (user @ password @ host @ database @ path_text (Some []))"
      and "ch CHR '';'' \<notin> set (user @ password @ host @ database @ path_text (Some []))"
      by (simp_all add: path_text_def is_str_append)
    from dsn_descriptor_attributes [OF this(1) _ this(2), of port connect_timeout a] h
    have e: "dsn_attributes (url a) =
         [(lit ''DATABASE'', database), (lit ''HOSTNAME'', host), (lit ''PORT'', decimal port),
          (lit ''PROTOCOL'', lit ''TCPIP''), (lit ''UID'', user), (lit ''PWD'', password),
          (lit ''Security'', lit ''SSL''),
          (lit ''CONNECTTIMEOUT'', decimal connect_timeout)]"
      by (simp add: truthy_def)
    have "lit ''SSLServerCertificate'' \<notin> fst ` set (dsn_attributes (url a))"
      unfolding e by (simp add: lit_def)
    with e show ?thesis by (rule conjI)
  qed
  have c4: "query_params (url b) =
         [(lit ''security'', lit ''SSL''), (lit ''connecttimeout'', decimal connect_timeout)]
       \<and> lit ''SSLServerCertificate'' \<notin> fst ` set (query_params (url b))"
    if h: "ch CHR ''?'' \<notin> set (host @ database)
       \<and> create_engine_with_url_params user password host port database (Some []) connect_timeout = Inr b"
  proof -
    from h have "create_engine_with_url_params user password host port database (Some []) connect_timeout = Inr b"
      and "ch CHR ''?'' \<notin> set (host @ database)"
      by simp_all
    from url_descriptor_params [OF this]
    have e: "query_params (url b) =
         [(lit ''security'', lit ''SSL''), (lit ''connecttimeout'', decimal connect_timeout)]"
      by (simp add: truthy_def)
    have "lit ''SSLServerCertificate'' \<notin> fst ` set (query_params (url b))"
      unfolding e by (simp add: lit_def)
    with e show ?thesis by (rule conjI)
  qed
  from c1 c2 c3 c4 show ?thesis by blast
qed

text \<open>Plain credentials with an empty path, read back from both descriptors.\<close>

theorem C10_empty_ca_path_witness:
  "dsn_attributes (lit ''ibm_db_sa:///?dsn=DATABASE%3DMYDB%3BHOSTNAME%3Dh%3BPORT%3D50000%3BPROTOCOL%3DTCPIP%3BUID%3Ddb2user%3BPWD%3Ddb2pwd%3BSecurity%3DSSL%3BCONNECTTIMEOUT%3D10'') =
     [(lit ''DATABASE'', lit ''MYDB''), (lit ''HOSTNAME'', lit ''h''), (lit ''PORT'', lit ''50000''), (lit ''PROTOCOL'', lit ''TCPIP''), (lit ''UID'', lit ''db2user''), (lit ''PWD'', lit ''db2pwd''), (lit ''Security'', lit ''SSL''), (lit ''CONNECTTIMEOUT'', lit ''10'')]
   \<and> query_params (lit ''ibm_db_sa://u:p@h:50000/MYDB?security=SSL&connecttimeout=10'') =
     [(lit ''security'', lit ''SSL''), (lit ''connecttimeout'', lit ''10'')]
   \<and> create_engine_with_dsn (lit ''db2user'') (lit ''db2pwd'') (lit ''h'') 50000 (lit ''MYDB'')
       None 10 =
     Inr (create_engine (lit ''ibm_db_sa:///?dsn=DATABASE%3DMYDB%3BHOSTNAME%3Dh%3BPORT%3D50000%3BPROTOCOL%3DTCPIP%3BUID%3Ddb2user%3BPWD%3Ddb2pwd%3BSecurity%3DSSL%3BCONNECTTIMEOUT%3D10''))
   \<and> create_engine_with_url_params (lit ''u'') (lit ''p'') (lit ''h'') 50000 (lit ''MYDB'')
       None 10 =
     Inr (create_engine (lit ''ibm_db_sa://u:p@h:50000/MYDB?security=SSL&connecttimeout=10''))"
proof -
  note c1 = C10_empty_ca_path [of "lit ''db2user''" "lit ''db2pwd''" "lit ''h''" 50000
      "lit ''MYDB''" 10 "create_engine (lit ''ibm_db_sa:///?dsn=DATABASE%3DMYDB%3BHOSTNAME%3Dh%3BPORT%3D50000%3BPROTOCOL%3DTCPIP%3BUID%3Ddb2user%3BPWD%3Ddb2pwd%3BSecurity%3DSSL%3BCONNECTTIMEOUT%3D10'')"]
  note c2 = C10_empty_ca_path [of "lit ''u''" "lit ''p''" "lit ''h''" 50000
      "lit ''MYDB''" 10 _ "create_engine (lit ''ibm_db_sa://u:p@h:50000/MYDB?security=SSL&connecttimeout=10'')"]
  have i: "is_str (lit ''db2user'' @ lit ''db2pwd'' @ lit ''h'' @ lit ''MYDB'')"
    by (simp add: is_str_append lit_is_str)
  have s: "ch CHR '';'' \<notin> set (lit ''db2user'' @ lit ''db2pwd'' @ lit ''h'' @ lit ''MYDB'')"
    and q: "ch CHR ''?'' \<notin> set (lit ''h'' @ lit ''MYDB'')"
    by (simp_all add: lit_def)
  from c1 i s plain_empty_path_engine
  have "dsn_attributes (url (create_engine (lit ''ibm_db_sa:///?dsn=DATABASE%3DMYDB%3BHOSTNAME%3Dh%3BPORT%3D50000%3BPROTOCOL%3DTCPIP%3BUID%3Ddb2user%3BPWD%3Ddb2pwd%3BSecurity%3DSSL%3BCONNECTTIMEOUT%3D10''))) =
      [(lit ''DATABASE'', lit ''MYDB''), (lit ''HOSTNAME'', lit ''h''), (lit ''PORT'', decimal 50000),
       (lit ''PROTOCOL'', lit ''TCPIP''), (lit ''UID'', lit ''db2user''),
       (lit ''PWD'', lit ''db2pwd''), (lit ''Security'', lit ''SSL''),
       (lit ''CONNECTTIMEOUT'', decimal 10)]"
    by blast
  moreover from c2 q empty_path_url_engine
  have "query_params (url (create_engine (lit ''ibm_db_sa://u:p@h:50000/MYDB?security=SSL&connecttimeout=10''))) =
      [(lit ''security'', lit ''SSL''), (lit ''connecttimeout'', decimal 10)]"
    by blast
  moreover from c1 plain_empty_path_engine
  have "create_engine_with_dsn (lit ''db2user'') (lit ''db2pwd'') (lit ''h'') 50000 (lit ''MYDB'')
       None 10 =
     Inr (create_engine (lit ''ibm_db_sa:///?dsn=DATABASE%3DMYDB%3BHOSTNAME%3Dh%3BPORT%3D50000%3BPROTOCOL%3DTCPIP%3BUID%3Ddb2user%3BPWD%3Ddb2pwd%3BSecurity%3DSSL%3BCONNECTTIMEOUT%3D10''))"
    by simp
  moreover from c2 empty_path_url_engine
  have "create_engine_with_url_params (lit ''u'') (lit ''p'') (lit ''h'') 50000 (lit ''MYDB'')
       None 10 =
     Inr (create_engine (lit ''ibm_db_sa://u:p@h:50000/MYDB?security=SSL&connecttimeout=10''))"
    by simp
  ultimately show ?thesis
    by (simp add: create_engine_def decimal_50000 decimal_10)
qed

text \<open>
  Claim C10 as stated fails in its second half.  With \<open>ca_cert_path=""\<close>, a password that
  holds \<open>;SSLServerCertificate=...\<close> puts that attribute into the descriptor of
  \<open>create_engine_with_dsn\<close>, and a database name that holds \<open>?SSLServerCertificate=...\<close>
  puts that parameter into the descriptor of \<open>create_engine_with_url_params\<close>.
\<close>

theorem C10_counterexample:
  "create_engine_with_dsn (lit ''db2user'') (lit ''pw;SSLServerCertificate=/tmp/evil.pem'')
       (lit ''h'') 50000 (lit ''MYDB'') (Some []) 10 =
     Inr (create_engine (lit ''ibm_db_sa:///?dsn=DATABASE%3DMYDB%3BHOSTNAME%3Dh%3BPORT%3D50000%3BPROTOCOL%3DTCPIP%3BUID%3Ddb2user%3BPWD%3Dpw%3BSSLServerCertificate%3D%2Ftmp%2Fevil.pem%3BSecurity%3DSSL%3BCONNECTTIMEOUT%3D10''))
   \<and> dsn_attributes (lit ''ibm_db_sa:///?dsn=DATABASE%3DMYDB%3BHOSTNAME%3Dh%3BPORT%3D50000%3BPROTOCOL%3DTCPIP%3BUID%3Ddb2user%3BPWD%3Dpw%3BSSLServerCertificate%3D%2Ftmp%2Fevil.pem%3BSecurity%3DSSL%3BCONNECTTIMEOUT%3D10'') =
     [(lit ''DATABASE'', lit ''MYDB''), (lit ''HOSTNAME'', lit ''h''), (lit ''PORT'', lit ''50000''), (lit ''PROTOCOL'', lit ''TCPIP''), (lit ''UID'', lit ''db2user''), (lit ''PWD'', lit ''pw''), (lit ''SSLServerCertificate'', lit ''/tmp/evil.pem''), (lit ''Security'', lit ''SSL''), (lit ''CONNECTTIMEOUT'', lit ''10'')]
   \<and> create_engine_with_url_params (lit ''u'') (lit ''p'') (lit ''h'') 50000
       (lit ''MYDB?SSLServerCertificate=/tmp/evil.pem'') (Some []) 10 =
     Inr (create_engine (lit ''ibm_db_sa://u:p@h:50000/MYDB?SSLServerCertificate=/tmp/evil.pem?security=SSL&connecttimeout=10''))
   \<and> query_params (lit ''ibm_db_sa://u:p@h:50000/MYDB?SSLServerCertificate=/tmp/evil.pem?security=SSL&connecttimeout=10'') =
     [(lit ''SSLServerCertificate'', lit ''/tmp/evil.pem?security=SSL''),
      (lit ''connecttimeout'', lit ''10'')]"
proof (intro conjI)
  show "query_params (lit ''ibm_db_sa://u:p@h:50000/MYDB?SSLServerCertificate=/tmp/evil.pem?security=SSL&connecttimeout=10'') =
     [(lit ''SSLServerCertificate'', lit ''/tmp/evil.pem?security=SSL''),
      (lit ''connecttimeout'', lit ''10'')]"
    by (simp add: query_params_def query_string_def name_value_def lit_def)
qed (rule injected_password_empty_path_engine injected_password_empty_path_attributes
    injected_database_empty_path_url_engine)+

end
